theory Spec2Isabelle
  imports Main "HOL-Library.Word"
begin

section \<open>The symbol table of the KPL front end (Week 4, symtab.c)\<close>

text \<open>
  The C module keeps a graph of heap cells linked by pointers: types, constant values,
  declared objects, scopes and the nodes of singly linked object lists. The embedding
  keeps one store per struct type. A store is a list of cells and an address is an index
  into it, so a cell that \<open>malloc\<close> hands out is new by construction: its address is the
  length of the store before the allocation. A pointer is an optional address, \<open>None\<close>
  being \<open>NULL\<close>. Nothing is ever released in the functions modelled here (the teardown
  functions are not part of this development), so addresses are never reused.

  Every function takes the state and returns either an error or its result together with
  the new state. The errors are the ways a call does not return: \<open>exit(1)\<close>, the
  dereference of \<open>NULL\<close>, the dereference of an address that holds no cell (or the read of
  a union member other than the one stored), and a list walk that never ends.
\<close>

subsection \<open>Data model\<close>

text \<open>
  Modelled from the spec: the declarations of \<open>symtab.h\<close>, which is not among the
  sources. The enumerations and the fields of the structs are those \<open>symtab.c\<close> names;
  the second passing mode, \<open>PARAM_REFERENCE\<close>, and the shape of the two unions are taken
  from the data model of the specification. A C \<open>int\<close> is a 32-bit word.
\<close>

datatype TypeClass = TP_INT | TP_CHAR | TP_ARRAY

datatype ObjectKind =
  OBJ_CONSTANT | OBJ_VARIABLE | OBJ_TYPE | OBJ_FUNCTION | OBJ_PROCEDURE
| OBJ_PARAMETER | OBJ_PROGRAM

datatype ParamKind = PARAM_VALUE | PARAM_REFERENCE

type_synonym ptr = "nat option"

type_synonym c_int = "32 word"

record Type =
  typeClass :: TypeClass
  arraySize :: c_int
  elementType :: ptr

text \<open>
  The payload of a constant is a C union of \<open>intValue\<close> and \<open>charValue\<close>. A member that was
  never written, or that is read through the other member, is \<open>Indeterminate\<close>.
\<close>

datatype Payload = IntValue c_int | CharValue char | Indeterminate

record ConstantValue =
  constType :: TypeClass
  payload :: Payload

definition intValue :: "ConstantValue \<Rightarrow> Payload" where
  "intValue v = (case payload v of IntValue i \<Rightarrow> IntValue i | _ \<Rightarrow> Indeterminate)"

definition charValue :: "ConstantValue \<Rightarrow> Payload" where
  "charValue v = (case payload v of CharValue c \<Rightarrow> CharValue c | _ \<Rightarrow> Indeterminate)"

text \<open>
  The attribute block of an object. In C it is a union of pointers to separately
  allocated structs, each owned by its object alone and never shared; the embedding stores
  the block inside the object. \<open>NoAttrs\<close> is the union before any member is assigned.
\<close>

datatype Attributes =
  NoAttrs
| ConstAttrs ptr
| VarAttrs ptr ptr
| TypeAttrs ptr
| FuncAttrs ptr ptr ptr
| ProcAttrs ptr ptr
| ProgAttrs ptr
| ParamAttrs ParamKind ptr ptr

record Object =
  name :: string
  kind :: ObjectKind
  attrs :: Attributes

record Scope =
  objList :: ptr
  owner :: ptr
  outer :: ptr

record ObjectNode =
  node_object :: ptr
  node_next :: ptr

record SymTab =
  program :: ptr
  currentScope :: ptr
  globalObjectList :: ptr

text \<open>
  \<open>symbolTable\<close> is the static pointer of the module together with the one cell it points
  to; \<open>memory\<close> is the number of allocations \<open>malloc\<close> will still satisfy; \<open>stderr\<close> collects
  what is printed on the error stream.
\<close>

record state =
  symbolTable :: "SymTab option"
  globalIntType :: ptr
  globalCharType :: ptr
  types :: "Type list"
  constants :: "ConstantValue list"
  objects :: "Object list"
  scopes :: "Scope list"
  nodes :: "ObjectNode list"
  memory :: nat
  stderr :: "string list"

datatype error = ProcessExit | NullDeref | InvalidAccess | Diverges

text \<open>Sequencing: the first error ends the call.\<close>

definition andThen :: "error + 'a \<Rightarrow> ('a \<Rightarrow> error + 'b) \<Rightarrow> error + 'b" where
  "andThen m f = (case m of Inl e \<Rightarrow> Inl e | Inr x \<Rightarrow> f x)"

subsection \<open>Memory\<close>

definition malloc :: "state \<Rightarrow> state option" where
  "malloc s = (if memory s = 0 then None else Some (s\<lparr>memory := memory s - 1\<rparr>))"

definition allocateMemory :: "state \<Rightarrow> error + state" where
  "allocateMemory s =
     (case malloc s of
        None \<Rightarrow> Inl ProcessExit
      | Some s' \<Rightarrow> Inr s')"

definition deref :: "'a list \<Rightarrow> ptr \<Rightarrow> error + 'a" where
  "deref store p =
     (case p of
        None \<Rightarrow> Inl NullDeref
      | Some a \<Rightarrow> if a < length store then Inr (store ! a) else Inl InvalidAccess)"

definition validateName :: "nat \<Rightarrow> string option \<Rightarrow> state \<Rightarrow> error + state" where
  "validateName MAX_IDENT_LEN nm s =
     (case nm of
        None \<Rightarrow> Inl ProcessExit
      | Some n \<Rightarrow> if length n \<ge> MAX_IDENT_LEN then Inl ProcessExit else Inr s)"

subsection \<open>Type management\<close>

definition makeIntType :: "state \<Rightarrow> error + ptr \<times> state" where
  "makeIntType s =
     andThen (allocateMemory s) (\<lambda>s1.
          Inr (Some (length (types s1)),
               s1\<lparr>types := types s1 @
                  [\<lparr>typeClass = TP_INT, arraySize = 0, elementType = None\<rparr>]\<rparr>))"

definition makeCharType :: "state \<Rightarrow> error + ptr \<times> state" where
  "makeCharType s =
     andThen (allocateMemory s) (\<lambda>s1.
          Inr (Some (length (types s1)),
               s1\<lparr>types := types s1 @
                  [\<lparr>typeClass = TP_CHAR, arraySize = 0, elementType = None\<rparr>]\<rparr>))"

definition makeArrayType :: "c_int \<Rightarrow> ptr \<Rightarrow> state \<Rightarrow> error + ptr \<times> state" where
  "makeArrayType arraySize' elementType' s =
     (if sint arraySize' \<le> 0 \<or> elementType' = None
      then Inr (None, s\<lparr>stderr := stderr s @ [''Invalid array parameters\<newline>'']\<rparr>)
      else
        andThen (allocateMemory s) (\<lambda>s1.
             Inr (Some (length (types s1)),
                  s1\<lparr>types := types s1 @
                     [\<lparr>typeClass = TP_ARRAY, arraySize = arraySize',
                       elementType = elementType'\<rparr>]\<rparr>)))"

subsection \<open>Constant management\<close>

definition makeIntConstant :: "c_int \<Rightarrow> state \<Rightarrow> error + ptr \<times> state" where
  "makeIntConstant v s =
     andThen (allocateMemory s) (\<lambda>s1.
          Inr (Some (length (constants s1)),
               s1\<lparr>constants := constants s1 @
                  [\<lparr>constType = TP_INT, payload = IntValue v\<rparr>]\<rparr>))"

definition makeCharConstant :: "char \<Rightarrow> state \<Rightarrow> error + ptr \<times> state" where
  "makeCharConstant v s =
     andThen (allocateMemory s) (\<lambda>s1.
          Inr (Some (length (constants s1)),
               s1\<lparr>constants := constants s1 @
                  [\<lparr>constType = TP_CHAR, payload = CharValue v\<rparr>]\<rparr>))"

text \<open>
  \<open>duplicateConstantValue\<close> calls \<open>malloc\<close> itself and writes through the result
  unchecked: when \<open>malloc\<close> returns \<open>NULL\<close> the first write dereferences it.
\<close>

definition duplicateConstantValue :: "ptr \<Rightarrow> state \<Rightarrow> error + ptr \<times> state" where
  "duplicateConstantValue v s =
     (if v = None then Inr (None, s)
      else
        (case malloc s of
           None \<Rightarrow> Inl NullDeref
         | Some s1 \<Rightarrow>
             andThen (deref (constants s1) v) (\<lambda>c.
               Inr (Some (length (constants s1)),
                    s1\<lparr>constants := constants s1 @
                       [\<lparr>constType = constType c,
                         payload =
                           (if constType c = TP_INT then intValue c
                            else if constType c = TP_CHAR then charValue c
                            else Indeterminate)\<rparr>]\<rparr>))))"

subsection \<open>Object creation\<close>

text \<open>
  \<open>MAX_IDENT_LEN\<close> is defined in \<open>symtab.h\<close>, which is not among the sources; it is a
  parameter of every function that validates a name. A name is a C string: \<open>None\<close> is the
  \<open>NULL\<close> pointer and \<open>strlen\<close> is the length of the list.
\<close>

definition createBaseObject ::
  "nat \<Rightarrow> string option \<Rightarrow> ObjectKind \<Rightarrow> state \<Rightarrow> error + nat \<times> state" where
  "createBaseObject MAX_IDENT_LEN nm k s =
     andThen (validateName MAX_IDENT_LEN nm s) (\<lambda>s0.
     andThen (allocateMemory s0) (\<lambda>s1.
       (case nm of
          None \<Rightarrow> Inl NullDeref
        | Some n \<Rightarrow>
            Inr (length (objects s1),
                 s1\<lparr>objects := objects s1 @ [\<lparr>name = n, kind = k, attrs = NoAttrs\<rparr>]\<rparr>))))"

definition setAttrs :: "nat \<Rightarrow> Attributes \<Rightarrow> state \<Rightarrow> state" where
  "setAttrs a x s = s\<lparr>objects := (objects s)[a := (objects s ! a)\<lparr>attrs := x\<rparr>]\<rparr>"

definition theSymTab :: "state \<Rightarrow> error + SymTab" where
  "theSymTab s = (case symbolTable s of None \<Rightarrow> Inl NullDeref | Some st \<Rightarrow> Inr st)"

definition createScope :: "ptr \<Rightarrow> ptr \<Rightarrow> state \<Rightarrow> error + ptr \<times> state" where
  "createScope owner' outer' s =
     andThen (allocateMemory s) (\<lambda>s1.
       Inr (Some (length (scopes s1)),
            s1\<lparr>scopes := scopes s1 @
               [\<lparr>objList = None, owner = owner', outer = outer'\<rparr>]\<rparr>))"

definition createProgramObject ::
  "nat \<Rightarrow> string option \<Rightarrow> state \<Rightarrow> error + ptr \<times> state" where
  "createProgramObject MAX_IDENT_LEN nm s =
     andThen (createBaseObject MAX_IDENT_LEN nm OBJ_PROGRAM s) (\<lambda>(prog, s1).
     andThen (allocateMemory s1) (\<lambda>s2.
     andThen (createScope (Some prog) None s2) (\<lambda>(sc, s3).
     andThen (theSymTab s3) (\<lambda>st.
       Inr (Some prog,
            (setAttrs prog (ProgAttrs sc) s3)
              \<lparr>symbolTable := Some (st\<lparr>program := Some prog\<rparr>)\<rparr>)))))"

definition createVariableObject ::
  "nat \<Rightarrow> string option \<Rightarrow> state \<Rightarrow> error + ptr \<times> state" where
  "createVariableObject MAX_IDENT_LEN nm s =
     andThen (createBaseObject MAX_IDENT_LEN nm OBJ_VARIABLE s) (\<lambda>(var, s1).
     andThen (allocateMemory s1) (\<lambda>s2.
     andThen (theSymTab s2) (\<lambda>st.
       Inr (Some var, setAttrs var (VarAttrs None (currentScope st)) s2))))"

definition createConstantObject ::
  "nat \<Rightarrow> string option \<Rightarrow> state \<Rightarrow> error + ptr \<times> state" where
  "createConstantObject MAX_IDENT_LEN nm s =
     andThen (createBaseObject MAX_IDENT_LEN nm OBJ_CONSTANT s) (\<lambda>(obj, s1).
     andThen (allocateMemory s1) (\<lambda>s2.
       Inr (Some obj, setAttrs obj (ConstAttrs None) s2)))"

definition createTypeObject ::
  "nat \<Rightarrow> string option \<Rightarrow> state \<Rightarrow> error + ptr \<times> state" where
  "createTypeObject MAX_IDENT_LEN nm s =
     andThen (createBaseObject MAX_IDENT_LEN nm OBJ_TYPE s) (\<lambda>(obj, s1).
     andThen (allocateMemory s1) (\<lambda>s2.
       Inr (Some obj, setAttrs obj (TypeAttrs None) s2)))"

definition createFunctionObject ::
  "nat \<Rightarrow> string option \<Rightarrow> state \<Rightarrow> error + ptr \<times> state" where
  "createFunctionObject MAX_IDENT_LEN nm s =
     andThen (createBaseObject MAX_IDENT_LEN nm OBJ_FUNCTION s) (\<lambda>(obj, s1).
     andThen (allocateMemory s1) (\<lambda>s2.
     andThen (theSymTab s2) (\<lambda>st.
     andThen (createScope (Some obj) (currentScope st) s2) (\<lambda>(sc, s3).
       Inr (Some obj, setAttrs obj (FuncAttrs None None sc) s3)))))"

definition createProcedureObject ::
  "nat \<Rightarrow> string option \<Rightarrow> state \<Rightarrow> error + ptr \<times> state" where
  "createProcedureObject MAX_IDENT_LEN nm s =
     andThen (createBaseObject MAX_IDENT_LEN nm OBJ_PROCEDURE s) (\<lambda>(obj, s1).
     andThen (allocateMemory s1) (\<lambda>s2.
     andThen (theSymTab s2) (\<lambda>st.
     andThen (createScope (Some obj) (currentScope st) s2) (\<lambda>(sc, s3).
       Inr (Some obj, setAttrs obj (ProcAttrs None sc) s3)))))"

definition createParameterObject ::
  "nat \<Rightarrow> string option \<Rightarrow> ParamKind \<Rightarrow> ptr \<Rightarrow> state \<Rightarrow> error + ptr \<times> state" where
  "createParameterObject MAX_IDENT_LEN nm k owner' s =
     andThen (createBaseObject MAX_IDENT_LEN nm OBJ_PARAMETER s) (\<lambda>(obj, s1).
     andThen (allocateMemory s1) (\<lambda>s2.
       Inr (Some obj, setAttrs obj (ParamAttrs k None owner') s2)))"

subsection \<open>Scope management\<close>

definition enterBlock :: "ptr \<Rightarrow> state \<Rightarrow> error + state" where
  "enterBlock scope s =
     (if scope = None then Inr s
      else andThen (theSymTab s) (\<lambda>st.
             Inr (s\<lparr>symbolTable := Some (st\<lparr>currentScope := scope\<rparr>)\<rparr>)))"

definition exitBlock :: "state \<Rightarrow> error + state" where
  "exitBlock s =
     andThen (theSymTab s) (\<lambda>st.
     andThen (deref (scopes s) (currentScope st)) (\<lambda>cur.
       if outer cur = None then Inr s
       else Inr (s\<lparr>symbolTable := Some (st\<lparr>currentScope := outer cur\<rparr>)\<rparr>)))"

subsection \<open>Object lists\<close>

text \<open>
  \<open>addObject\<close> receives the address of the pointer variable that heads a list. The module
  passes four kinds of such addresses: the \<open>globalObjectList\<close> field of the symbol table,
  the \<open>objList\<close> field of a scope, and the \<open>paramList\<close> field of the function or of the
  procedure attributes of an object.
\<close>

datatype ListRef =
  GlobalObjectList
| ObjListOf ptr
| FuncParamListOf ptr
| ProcParamListOf ptr

fun readRef :: "ListRef \<Rightarrow> state \<Rightarrow> error + ptr" where
  "readRef GlobalObjectList s = andThen (theSymTab s) (\<lambda>st. Inr (globalObjectList st))"
| "readRef (ObjListOf p) s = andThen (deref (scopes s) p) (\<lambda>sc. Inr (objList sc))"
| "readRef (FuncParamListOf p) s =
     andThen (deref (objects s) p) (\<lambda>ob.
       (case attrs ob of
          FuncAttrs pl rt sc \<Rightarrow> Inr pl
        | _ \<Rightarrow> Inl InvalidAccess))"
| "readRef (ProcParamListOf p) s =
     andThen (deref (objects s) p) (\<lambda>ob.
       (case attrs ob of
          ProcAttrs pl sc \<Rightarrow> Inr pl
        | _ \<Rightarrow> Inl InvalidAccess))"

fun writeRef :: "ListRef \<Rightarrow> ptr \<Rightarrow> state \<Rightarrow> error + state" where
  "writeRef GlobalObjectList v s =
     andThen (theSymTab s) (\<lambda>st.
       Inr (s\<lparr>symbolTable := Some (st\<lparr>globalObjectList := v\<rparr>)\<rparr>))"
| "writeRef (ObjListOf p) v s =
     andThen (deref (scopes s) p) (\<lambda>sc.
       (case p of
          None \<Rightarrow> Inl NullDeref
        | Some a \<Rightarrow> Inr (s\<lparr>scopes := (scopes s)[a := sc\<lparr>objList := v\<rparr>]\<rparr>)))"
| "writeRef (FuncParamListOf p) v s =
     andThen (deref (objects s) p) (\<lambda>ob.
       (case (p, attrs ob) of
          (Some a, FuncAttrs pl rt sc) \<Rightarrow> Inr (setAttrs a (FuncAttrs v rt sc) s)
        | _ \<Rightarrow> Inl InvalidAccess))"
| "writeRef (ProcParamListOf p) v s =
     andThen (deref (objects s) p) (\<lambda>ob.
       (case (p, attrs ob) of
          (Some a, ProcAttrs pl sc) \<Rightarrow> Inr (setAttrs a (ProcAttrs v sc) s)
        | _ \<Rightarrow> Inl InvalidAccess))"

text \<open>
  The walk to the last node, \<open>while (current->next != NULL) current = current->next\<close>.
  The loop runs forever on a cyclic list. A walk that looks at more nodes than the store
  holds has seen one of them twice and is on a cycle, so the fuel \<open>length N + 1\<close> that
  \<open>addObject\<close> supplies runs out only when the C loop does not terminate.
\<close>

fun lastNode :: "nat \<Rightarrow> ObjectNode list \<Rightarrow> nat \<Rightarrow> error + nat" where
  "lastNode 0 N current = Inl Diverges"
| "lastNode (Suc fuel) N current =
     andThen (deref N (Some current)) (\<lambda>n.
       (case node_next n of
          None \<Rightarrow> Inr current
        | Some nx \<Rightarrow> lastNode fuel N nx))"

definition addObject :: "ListRef \<Rightarrow> ptr \<Rightarrow> state \<Rightarrow> error + state" where
  "addObject l obj s =
     andThen (allocateMemory s) (\<lambda>s1.
       let node = length (nodes s1);
           s2 = s1\<lparr>nodes := nodes s1 @ [\<lparr>node_object = obj, node_next = None\<rparr>]\<rparr>
       in andThen (readRef l s2) (\<lambda>hd'.
            (case hd' of
               None \<Rightarrow> writeRef l (Some node) s2
             | Some first \<Rightarrow>
                 andThen (lastNode (length (nodes s2) + 1) (nodes s2) first) (\<lambda>current.
                   Inr (s2\<lparr>nodes := (nodes s2)
                          [current := (nodes s2 ! current)\<lparr>node_next := Some node\<rparr>]\<rparr>)))))"

text \<open>
  \<open>findObject\<close>: the scan stops at the first node whose object carries the name, or at the
  end of the list. The fuel is as for \<open>lastNode\<close>.
\<close>

fun findObject_loop :: "nat \<Rightarrow> state \<Rightarrow> ptr \<Rightarrow> string \<Rightarrow> error + ptr" where
  "findObject_loop 0 s l nm = Inl Diverges"
| "findObject_loop (Suc fuel) s l nm =
     (case l of
        None \<Rightarrow> Inr None
      | Some a \<Rightarrow>
          andThen (deref (nodes s) (Some a)) (\<lambda>n.
          andThen (deref (objects s) (node_object n)) (\<lambda>ob.
            if name ob = nm then Inr (node_object n)
            else findObject_loop fuel s (node_next n) nm)))"

definition findObject :: "ptr \<Rightarrow> string \<Rightarrow> state \<Rightarrow> error + ptr" where
  "findObject l nm s = findObject_loop (length (nodes s) + 1) s l nm"

subsection \<open>Symbol table operations\<close>

text \<open>The two assignments \<open>initSymTab\<close> makes through the attribute blocks of a built-in.\<close>

definition set_returnType :: "ptr \<Rightarrow> ptr \<Rightarrow> state \<Rightarrow> error + state" where
  "set_returnType obj t s =
     andThen (deref (objects s) obj) (\<lambda>ob.
       (case (obj, attrs ob) of
          (Some a, FuncAttrs pl rt sc) \<Rightarrow> Inr (setAttrs a (FuncAttrs pl t sc) s)
        | _ \<Rightarrow> Inl InvalidAccess))"

definition set_paramType :: "ptr \<Rightarrow> ptr \<Rightarrow> state \<Rightarrow> error + state" where
  "set_paramType obj t s =
     andThen (deref (objects s) obj) (\<lambda>ob.
       (case (obj, attrs ob) of
          (Some a, ParamAttrs k ty f) \<Rightarrow> Inr (setAttrs a (ParamAttrs k t f) s)
        | _ \<Rightarrow> Inl InvalidAccess))"

definition initSymTab :: "nat \<Rightarrow> state \<Rightarrow> error + state" where
  "initSymTab MAX_IDENT_LEN s =
     andThen (allocateMemory s) (\<lambda>s0.
     andThen (makeIntType
                (s0\<lparr>symbolTable :=
                      Some \<lparr>program = None, currentScope = None, globalObjectList = None\<rparr>\<rparr>))
       (\<lambda>(ti, s1).
     andThen (makeCharType (s1\<lparr>globalIntType := ti\<rparr>)) (\<lambda>(tc, s2).
     \<comment> \<open>Built-in function READC\<close>
     andThen (createFunctionObject MAX_IDENT_LEN (Some ''READC'') (s2\<lparr>globalCharType := tc\<rparr>))
       (\<lambda>(obj, s3).
     andThen (makeCharType s3) (\<lambda>(t, s4).
     andThen (set_returnType obj t s4) (\<lambda>s5.
     andThen (addObject GlobalObjectList obj s5) (\<lambda>s6.
     \<comment> \<open>Built-in function READI\<close>
     andThen (createFunctionObject MAX_IDENT_LEN (Some ''READI'') s6) (\<lambda>(obj, s7).
     andThen (makeIntType s7) (\<lambda>(t, s8).
     andThen (set_returnType obj t s8) (\<lambda>s9.
     andThen (addObject GlobalObjectList obj s9) (\<lambda>s10.
     \<comment> \<open>Built-in procedure WRITEI\<close>
     andThen (createProcedureObject MAX_IDENT_LEN (Some ''WRITEI'') s10) (\<lambda>(obj, s11).
     andThen (createParameterObject MAX_IDENT_LEN (Some ''i'') PARAM_VALUE obj s11)
       (\<lambda>(param, s12).
     andThen (makeIntType s12) (\<lambda>(t, s13).
     andThen (set_paramType param t s13) (\<lambda>s14.
     andThen (addObject (ProcParamListOf obj) param s14) (\<lambda>s15.
     andThen (addObject GlobalObjectList obj s15) (\<lambda>s16.
     \<comment> \<open>Built-in procedure WRITEC\<close>
     andThen (createProcedureObject MAX_IDENT_LEN (Some ''WRITEC'') s16) (\<lambda>(obj, s17).
     andThen (createParameterObject MAX_IDENT_LEN (Some ''ch'') PARAM_VALUE obj s17)
       (\<lambda>(param, s18).
     andThen (makeCharType s18) (\<lambda>(t, s19).
     andThen (set_paramType param t s19) (\<lambda>s20.
     andThen (addObject (ProcParamListOf obj) param s20) (\<lambda>s21.
     andThen (addObject GlobalObjectList obj s21) (\<lambda>s22.
     \<comment> \<open>Built-in procedure WRITELN\<close>
     andThen (createProcedureObject MAX_IDENT_LEN (Some ''WRITELN'') s22) (\<lambda>(obj, s23).
       addObject GlobalObjectList obj s23))))))))))))))))))))))))"

definition declareObject :: "ptr \<Rightarrow> state \<Rightarrow> error + state" where
  "declareObject obj s =
     (if obj = None then Inr s
      else
        andThen (theSymTab s) (\<lambda>st.
          if currentScope st = None then Inr s
          else
            andThen (deref (objects s) obj) (\<lambda>ob.
              if kind ob = OBJ_PARAMETER then
                andThen (deref (scopes s) (currentScope st)) (\<lambda>cur.
                andThen (deref (objects s) (owner cur)) (\<lambda>ow.
                  (case kind ow of
                     OBJ_FUNCTION \<Rightarrow>
                       (case attrs ow of
                          FuncAttrs pl rt sc \<Rightarrow> addObject (FuncParamListOf (owner cur)) obj s
                        | _ \<Rightarrow> Inl InvalidAccess)
                   | OBJ_PROCEDURE \<Rightarrow>
                       (case attrs ow of
                          ProcAttrs pl sc \<Rightarrow> addObject (ProcParamListOf (owner cur)) obj s
                        | _ \<Rightarrow> Inl InvalidAccess)
                   | _ \<Rightarrow> Inr s)))
              else addObject (ObjListOf (currentScope st)) obj s)))"

subsection \<open>The driver\<close>

text \<open>
  The module is driven by a parser that calls \<open>initSymTab\<close> first and then the object
  constructors, \<open>enterBlock\<close>, \<open>exitBlock\<close> and \<open>declareObject\<close>. A run of the driver is a
  list of calls; the pointer a constructor returns is the address of the cell it created,
  which later calls may present. A driver presents to \<open>enterBlock\<close> only \<open>NULL\<close> or a scope
  that exists. \<open>startState m\<close> is the state of the process before \<open>initSymTab\<close>, with \<open>m\<close>
  allocations available.
\<close>

definition startState :: "nat \<Rightarrow> state" where
  "startState m =
     \<lparr>symbolTable = None, globalIntType = None, globalCharType = None, types = [],
      constants = [], objects = [], scopes = [], nodes = [], memory = m, stderr = []\<rparr>"

datatype call =
  CreateProgram "string option"
| CreateVariable "string option"
| CreateConstant "string option"
| CreateType "string option"
| CreateFunction "string option"
| CreateProcedure "string option"
| CreateParameter "string option" ParamKind ptr
| EnterBlock ptr
| ExitBlock
| DeclareObject ptr

definition dropResult :: "error + 'a \<times> state \<Rightarrow> error + state" where
  "dropResult r = andThen r (\<lambda>(x, s). Inr s)"

fun step :: "nat \<Rightarrow> call \<Rightarrow> state \<Rightarrow> error + state" where
  "step M (CreateProgram nm) s = dropResult (createProgramObject M nm s)"
| "step M (CreateVariable nm) s = dropResult (createVariableObject M nm s)"
| "step M (CreateConstant nm) s = dropResult (createConstantObject M nm s)"
| "step M (CreateType nm) s = dropResult (createTypeObject M nm s)"
| "step M (CreateFunction nm) s = dropResult (createFunctionObject M nm s)"
| "step M (CreateProcedure nm) s = dropResult (createProcedureObject M nm s)"
| "step M (CreateParameter nm k ow) s = dropResult (createParameterObject M nm k ow s)"
| "step M (EnterBlock p) s =
     (case p of
        None \<Rightarrow> enterBlock None s
      | Some c \<Rightarrow> if c < length (scopes s) then enterBlock (Some c) s else Inl InvalidAccess)"
| "step M ExitBlock s = exitBlock s"
| "step M (DeclareObject p) s = declareObject p s"

fun steps :: "nat \<Rightarrow> call list \<Rightarrow> state \<Rightarrow> error + state" where
  "steps M [] s = Inr s"
| "steps M (c # cs) s = andThen (step M c s) (steps M cs)"

definition run :: "nat \<Rightarrow> nat \<Rightarrow> call list \<Rightarrow> error + state" where
  "run M m cs = andThen (initSymTab M (startState m)) (steps M cs)"

subsection \<open>Notions used to state the properties\<close>

text \<open>The scope cursor: \<open>None\<close> when there is no symbol table, otherwise its \<open>currentScope\<close>.\<close>

definition cursor :: "state \<Rightarrow> ptr option" where
  "cursor s = map_option currentScope (symbolTable s)"

text \<open>A call returned an object of the given name and kind.\<close>

definition returnsObject :: "error + ptr \<times> state \<Rightarrow> string \<Rightarrow> ObjectKind \<Rightarrow> bool" where
  "returnsObject r n k =
     (case r of
        Inl e \<Rightarrow> False
      | Inr (p, s') \<Rightarrow>
          (case p of
             None \<Rightarrow> False
           | Some a \<Rightarrow>
               a < length (objects s') \<and> name (objects s' ! a) = n \<and>
               kind (objects s' ! a) = k))"

text \<open>
  A constant as the constructors build it: the tag names the member of the union that
  holds the value.
\<close>

definition wellTagged :: "ConstantValue \<Rightarrow> bool" where
  "wellTagged c =
     (case payload c of
        IntValue i \<Rightarrow> constType c = TP_INT
      | CharValue ch \<Rightarrow> constType c = TP_CHAR
      | Indeterminate \<Rightarrow> False)"

text \<open>
  The scope field of a Program, Function or Procedure object, read through the attribute
  block its kind selects (\<open>obj->funcAttrs->scope\<close> and its siblings).
\<close>

definition bodyScope :: "Object \<Rightarrow> error + ptr" where
  "bodyScope ob =
     (case kind ob of
        OBJ_PROGRAM \<Rightarrow> (case attrs ob of ProgAttrs sc \<Rightarrow> Inr sc | _ \<Rightarrow> Inl InvalidAccess)
      | OBJ_FUNCTION \<Rightarrow> (case attrs ob of FuncAttrs pl rt sc \<Rightarrow> Inr sc | _ \<Rightarrow> Inl InvalidAccess)
      | OBJ_PROCEDURE \<Rightarrow> (case attrs ob of ProcAttrs pl sc \<Rightarrow> Inr sc | _ \<Rightarrow> Inl InvalidAccess)
      | _ \<Rightarrow> Inl InvalidAccess)"

text \<open>
  The parameter list head of a Function or Procedure object, read as \<open>declareObject\<close>
  reads it.
\<close>

definition paramList :: "Object \<Rightarrow> error + ptr" where
  "paramList ob =
     (case kind ob of
        OBJ_FUNCTION \<Rightarrow> (case attrs ob of FuncAttrs pl rt sc \<Rightarrow> Inr pl | _ \<Rightarrow> Inl InvalidAccess)
      | OBJ_PROCEDURE \<Rightarrow> (case attrs ob of ProcAttrs pl sc \<Rightarrow> Inr pl | _ \<Rightarrow> Inl InvalidAccess)
      | _ \<Rightarrow> Inl InvalidAccess)"

text \<open>
  Following \<open>outer\<close> from a scope until it is absent. No function of the module does
  this; it is the walk a caller makes for scope-chain lookup. The fuel bounds the number
  of scopes visited.
\<close>

fun rootScope :: "nat \<Rightarrow> Scope list \<Rightarrow> nat \<Rightarrow> error + nat" where
  "rootScope 0 S c = Inl Diverges"
| "rootScope (Suc fuel) S c =
     andThen (deref S (Some c)) (\<lambda>sc.
       (case outer sc of
          None \<Rightarrow> Inr c
        | Some c' \<Rightarrow> rootScope fuel S c'))"

text \<open>
  A linked list in the node store: \<open>chain N p as\<close> holds when the nodes from \<open>p\<close> to the
  terminating \<open>NULL\<close> are exactly those at the addresses \<open>as\<close>, in this order;
  \<open>objectsOf N as\<close> are the objects they carry.
\<close>

fun chain :: "ObjectNode list \<Rightarrow> ptr \<Rightarrow> nat list \<Rightarrow> bool" where
  "chain N p [] = (p = None)"
| "chain N p (a # as) = (p = Some a \<and> a < length N \<and> chain N (node_next (N ! a)) as)"

definition objectsOf :: "ObjectNode list \<Rightarrow> nat list \<Rightarrow> ptr list" where
  "objectsOf N as = map (\<lambda>a. node_object (N ! a)) as"

text \<open>
  The links between scopes and objects, apart from the lists: for every scope its owner
  and its outer scope, for every object its body scope.
\<close>

definition scopeLinks :: "state \<Rightarrow> (ptr \<times> ptr) list" where
  "scopeLinks s = map (\<lambda>sc. (owner sc, outer sc)) (scopes s)"

definition objectScopes :: "state \<Rightarrow> (ObjectKind \<times> (error + ptr)) list" where
  "objectScopes s = map (\<lambda>ob. (kind ob, bodyScope ob)) (objects s)"

text \<open>
  The invariant of the scope tree: the outer scope of a scope was created before it; the
  owner of a scope is an object whose body scope it is; the body scope of a Program,
  Function or Procedure object is a scope owned by it; the cursor, when set, is a scope
  that exists.
\<close>

definition linksInv ::
  "(ptr \<times> ptr) list \<Rightarrow> (ObjectKind \<times> (error + ptr)) list \<Rightarrow> ptr option \<Rightarrow> bool" where
  "linksInv L ob cur =
     ((\<forall>c < length L.
         (\<forall>c'. snd (L ! c) = Some c' \<longrightarrow> c' < c) \<and>
         (\<exists>w < length ob. fst (L ! c) = Some w \<and> snd (ob ! w) = Inr (Some c))) \<and>
      (\<forall>w < length ob.
         fst (ob ! w) = OBJ_PROGRAM \<or> fst (ob ! w) = OBJ_FUNCTION \<or>
         fst (ob ! w) = OBJ_PROCEDURE \<longrightarrow>
         (\<exists>c < length L. snd (ob ! w) = Inr (Some c) \<and> fst (L ! c) = Some w)) \<and>
      (\<forall>c. cur = Some (Some c) \<longrightarrow> c < length L))"

definition scopeInv :: "state \<Rightarrow> bool" where
  "scopeInv s = linksInv (scopeLinks s) (objectScopes s) (cursor s)"

text \<open>The state after \<open>addObject\<close> has allocated and filled its node.\<close>

definition pushNode :: "ptr \<Rightarrow> state \<Rightarrow> state" where
  "pushNode obj s =
     s\<lparr>nodes := nodes s @ [\<lparr>node_object = obj, node_next = None\<rparr>],
       memory := memory s - 1\<rparr>"

text \<open>Two states with the same links.\<close>

definition sameLinks :: "state \<Rightarrow> state \<Rightarrow> bool" where
  "sameLinks s s' =
     (scopeLinks s' = scopeLinks s \<and> objectScopes s' = objectScopes s \<and>
      cursor s' = cursor s)"

text \<open>The invariant together with an unset cursor, as it holds throughout \<open>initSymTab\<close>.\<close>

definition freshTable :: "state \<Rightarrow> bool" where
  "freshTable s = (scopeInv s \<and> cursor s = Some None)"

text \<open>The list headed by \<open>p\<close> occupies the nodes \<open>as\<close> and carries the objects \<open>xs\<close>.\<close>

definition listAt :: "ObjectNode list \<Rightarrow> ptr \<Rightarrow> nat list \<Rightarrow> ptr list \<Rightarrow> bool" where
  "listAt N p as xs = (chain N p as \<and> objectsOf N as = xs)"

text \<open>
  The links of the second state extend those of the first: every scope and every object
  of the first state is still there, with the same owner, outer scope, kind and body scope.
\<close>

definition grownFrom :: "state \<Rightarrow> state \<Rightarrow> bool" where
  "grownFrom s s' =
     ((\<exists>L. scopeLinks s' = scopeLinks s @ L) \<and> (\<exists>ob. objectScopes s' = objectScopes s @ ob))"

subsection \<open>Example states\<close>

text \<open>
  The cells \<open>initSymTab\<close> creates in the start state, and four states of a run with
  \<open>MAX_IDENT_LEN = 15\<close>: \<open>builtins\<close> right after \<open>initSymTab\<close>; \<open>withConstant\<close> after
  \<open>makeIntConstant(42)\<close> in that state; \<open>inRoot\<close> inside the root
  scope of a program \<open>PROG\<close>, where a parameter \<open>p\<close> has been created; \<open>inFunction\<close> inside
  the body of a function \<open>F\<close> that has one declared parameter \<open>x\<close> and one declared
  variable \<open>v\<close>, where a parameter \<open>y\<close> and a variable \<open>w\<close> have been created and not yet
  declared. \<open>rootEntered\<close> is the state of that run when \<open>F\<close> is about to be created, and
  \<open>scenarioCalls\<close> are the calls that lead to \<open>inFunction\<close>.
\<close>

definition builtinTypes :: "Type list" where
  "builtinTypes =
     [\<lparr>typeClass = TP_INT, arraySize = 0, elementType = None\<rparr>,
      \<lparr>typeClass = TP_CHAR, arraySize = 0, elementType = None\<rparr>,
      \<lparr>typeClass = TP_CHAR, arraySize = 0, elementType = None\<rparr>,
      \<lparr>typeClass = TP_INT, arraySize = 0, elementType = None\<rparr>,
      \<lparr>typeClass = TP_INT, arraySize = 0, elementType = None\<rparr>,
      \<lparr>typeClass = TP_CHAR, arraySize = 0, elementType = None\<rparr>]"

definition builtinObjects :: "Object list" where
  "builtinObjects =
     [\<lparr>name = ''READC'', kind = OBJ_FUNCTION, attrs = FuncAttrs None (Some 2) (Some 0)\<rparr>,
      \<lparr>name = ''READI'', kind = OBJ_FUNCTION, attrs = FuncAttrs None (Some 3) (Some 1)\<rparr>,
      \<lparr>name = ''WRITEI'', kind = OBJ_PROCEDURE, attrs = ProcAttrs (Some 2) (Some 2)\<rparr>,
      \<lparr>name = ''i'', kind = OBJ_PARAMETER, attrs = ParamAttrs PARAM_VALUE (Some 4) (Some 2)\<rparr>,
      \<lparr>name = ''WRITEC'', kind = OBJ_PROCEDURE, attrs = ProcAttrs (Some 4) (Some 3)\<rparr>,
      \<lparr>name = ''ch'', kind = OBJ_PARAMETER, attrs = ParamAttrs PARAM_VALUE (Some 5) (Some 4)\<rparr>,
      \<lparr>name = ''WRITELN'', kind = OBJ_PROCEDURE, attrs = ProcAttrs None (Some 4)\<rparr>]"

definition builtinScopes :: "Scope list" where
  "builtinScopes =
     [\<lparr>objList = None, owner = Some 0, outer = None\<rparr>,
      \<lparr>objList = None, owner = Some 1, outer = None\<rparr>,
      \<lparr>objList = None, owner = Some 2, outer = None\<rparr>,
      \<lparr>objList = None, owner = Some 4, outer = None\<rparr>,
      \<lparr>objList = None, owner = Some 6, outer = None\<rparr>]"

definition builtinNodes :: "ObjectNode list" where
  "builtinNodes =
     [\<lparr>node_object = Some 0, node_next = Some 1\<rparr>,
      \<lparr>node_object = Some 1, node_next = Some 3\<rparr>,
      \<lparr>node_object = Some 3, node_next = None\<rparr>,
      \<lparr>node_object = Some 2, node_next = Some 5\<rparr>,
      \<lparr>node_object = Some 5, node_next = None\<rparr>,
      \<lparr>node_object = Some 4, node_next = Some 6\<rparr>,
      \<lparr>node_object = Some 6, node_next = None\<rparr>]"

definition builtins :: state where
  "builtins =
     \<lparr>symbolTable =
        Some \<lparr>program = None, currentScope = None, globalObjectList = Some 0\<rparr>,
      globalIntType = Some 0, globalCharType = Some 1,
      types = builtinTypes, constants = [], objects = builtinObjects,
      scopes = builtinScopes, nodes = builtinNodes, memory = 17, stderr = []\<rparr>"

definition withConstant :: state where
  "withConstant =
     builtins\<lparr>constants := [\<lparr>constType = TP_INT, payload = IntValue 42\<rparr>], memory := 16\<rparr>"

definition rootEntered :: state where
  "rootEntered =
     \<lparr>symbolTable =
        Some \<lparr>program = Some 7, currentScope = Some 5, globalObjectList = Some 0\<rparr>,
      globalIntType = Some 0, globalCharType = Some 1,
      types = builtinTypes, constants = [],
      objects = builtinObjects @
        [\<lparr>name = ''PROG'', kind = OBJ_PROGRAM, attrs = ProgAttrs (Some 5)\<rparr>],
      scopes = builtinScopes @ [\<lparr>objList = None, owner = Some 7, outer = None\<rparr>],
      nodes = builtinNodes, memory = 14, stderr = []\<rparr>"

definition inRoot :: state where
  "inRoot =
     \<lparr>symbolTable =
        Some \<lparr>program = Some 7, currentScope = Some 5, globalObjectList = Some 0\<rparr>,
      globalIntType = Some 0, globalCharType = Some 1,
      types = builtinTypes, constants = [],
      objects = builtinObjects @
        [\<lparr>name = ''PROG'', kind = OBJ_PROGRAM, attrs = ProgAttrs (Some 5)\<rparr>,
         \<lparr>name = ''p'', kind = OBJ_PARAMETER, attrs = ParamAttrs PARAM_VALUE None (Some 7)\<rparr>],
      scopes = builtinScopes @ [\<lparr>objList = None, owner = Some 7, outer = None\<rparr>],
      nodes = builtinNodes, memory = 12, stderr = []\<rparr>"

definition inFunction :: state where
  "inFunction =
     \<lparr>symbolTable =
        Some \<lparr>program = Some 7, currentScope = Some 6, globalObjectList = Some 0\<rparr>,
      globalIntType = Some 0, globalCharType = Some 1,
      types = builtinTypes, constants = [],
      objects = builtinObjects @
        [\<lparr>name = ''PROG'', kind = OBJ_PROGRAM, attrs = ProgAttrs (Some 5)\<rparr>,
         \<lparr>name = ''F'', kind = OBJ_FUNCTION, attrs = FuncAttrs (Some 7) None (Some 6)\<rparr>,
         \<lparr>name = ''x'', kind = OBJ_PARAMETER, attrs = ParamAttrs PARAM_VALUE None (Some 8)\<rparr>,
         \<lparr>name = ''v'', kind = OBJ_VARIABLE, attrs = VarAttrs None (Some 6)\<rparr>,
         \<lparr>name = ''y'', kind = OBJ_PARAMETER,
           attrs = ParamAttrs PARAM_REFERENCE None (Some 8)\<rparr>,
         \<lparr>name = ''w'', kind = OBJ_VARIABLE, attrs = VarAttrs None (Some 6)\<rparr>],
      scopes = builtinScopes @
        [\<lparr>objList = None, owner = Some 7, outer = None\<rparr>,
         \<lparr>objList = Some 8, owner = Some 8, outer = Some 5\<rparr>],
      nodes = builtinNodes @
        [\<lparr>node_object = Some 9, node_next = None\<rparr>,
         \<lparr>node_object = Some 10, node_next = None\<rparr>],
      memory = 1, stderr = []\<rparr>"

definition scenarioCalls :: "call list" where
  "scenarioCalls =
     [CreateProgram (Some ''PROG''), EnterBlock (Some 5),
      CreateFunction (Some ''F''), EnterBlock (Some 6),
      CreateParameter (Some ''x'') PARAM_VALUE (Some 8), DeclareObject (Some 9),
      CreateVariable (Some ''v''), DeclareObject (Some 10),
      CreateParameter (Some ''y'') PARAM_REFERENCE (Some 8),
      CreateVariable (Some ''w'')]"

section \<open>Properties\<close>

subsection \<open>Sequencing, allocation and the constructors\<close>

lemma andThen_Inl: "andThen (Inl e) f = Inl e"
  by (simp add: andThen_def)

lemma andThen_Inr: "andThen (Inr x) f = f x"
  by (simp add: andThen_def)

lemma andThen_eq_Inr:
  "(andThen m f = Inr y) = (\<exists>x. m = Inr x \<and> f x = Inr y)"
  by (cases m) (simp_all add: andThen_def)

lemma allocateMemory_Inr:
  "(allocateMemory s = Inr s') = (0 < memory s \<and> s' = s\<lparr>memory := memory s - 1\<rparr>)"
  by (auto simp: allocateMemory_def malloc_def)

lemma allocateMemory_ok:
  "0 < memory s \<Longrightarrow> allocateMemory s = Inr (s\<lparr>memory := memory s - 1\<rparr>)"
  by (simp add: allocateMemory_def malloc_def)

lemma validateName_Inr:
  "(validateName M nm s = Inr s') = (\<exists>n. nm = Some n \<and> length n < M \<and> s' = s)"
  by (cases nm) (auto simp: validateName_def)

lemma validateName_fatal:
  "nm = None \<or> (\<exists>n. nm = Some n \<and> M \<le> length n) \<Longrightarrow> validateName M nm s = Inl ProcessExit"
  by (auto simp: validateName_def)

lemma createBaseObject_fatal:
  "nm = None \<or> (\<exists>n. nm = Some n \<and> M \<le> length n) \<Longrightarrow> createBaseObject M nm k s = Inl ProcessExit"
  by (simp add: createBaseObject_def validateName_fatal andThen_Inl)

lemma createBaseObject_Inr:
  "(createBaseObject M nm k s = Inr (a, s')) =
     (\<exists>n. nm = Some n \<and> length n < M \<and> 0 < memory s \<and> a = length (objects s) \<and>
          s' = s\<lparr>objects := objects s @ [\<lparr>name = n, kind = k, attrs = NoAttrs\<rparr>],
                 memory := memory s - 1\<rparr>)"
  by (auto simp: createBaseObject_def andThen_eq_Inr validateName_Inr allocateMemory_Inr)

lemma createScope_Inr:
  "(createScope ow ou s = Inr (p, s')) =
     (0 < memory s \<and> p = Some (length (scopes s)) \<and>
      s' = s\<lparr>scopes := scopes s @ [\<lparr>objList = None, owner = ow, outer = ou\<rparr>],
             memory := memory s - 1\<rparr>)"
  by (auto simp: createScope_def andThen_eq_Inr allocateMemory_Inr)

lemma theSymTab_Inr: "(theSymTab s = Inr st) = (symbolTable s = Some st)"
  by (simp add: theSymTab_def split: option.splits)

lemma createFunctionObject_Inr:
  "(createFunctionObject M nm s = Inr (p, s')) =
     (\<exists>n st. nm = Some n \<and> length n < M \<and> 3 \<le> memory s \<and> symbolTable s = Some st \<and>
        p = Some (length (objects s)) \<and>
        s' = s\<lparr>objects := objects s @
                  [\<lparr>name = n, kind = OBJ_FUNCTION,
                    attrs = FuncAttrs None None (Some (length (scopes s)))\<rparr>],
               scopes := scopes s @
                  [\<lparr>objList = None, owner = Some (length (objects s)),
                    outer = currentScope st\<rparr>],
               memory := memory s - 3\<rparr>)"
  apply (simp add: createFunctionObject_def andThen_eq_Inr createBaseObject_Inr
      allocateMemory_Inr createScope_Inr theSymTab_Inr setAttrs_def split_paired_Ex)
  apply (auto)
  done


lemma createProcedureObject_Inr:
  "(createProcedureObject M nm s = Inr (p, s')) =
     (\<exists>n st. nm = Some n \<and> length n < M \<and> 3 \<le> memory s \<and> symbolTable s = Some st \<and>
        p = Some (length (objects s)) \<and>
        s' = s\<lparr>objects := objects s @
                  [\<lparr>name = n, kind = OBJ_PROCEDURE,
                    attrs = ProcAttrs None (Some (length (scopes s)))\<rparr>],
               scopes := scopes s @
                  [\<lparr>objList = None, owner = Some (length (objects s)),
                    outer = currentScope st\<rparr>],
               memory := memory s - 3\<rparr>)"
  apply (simp add: createProcedureObject_def andThen_eq_Inr createBaseObject_Inr
      allocateMemory_Inr createScope_Inr theSymTab_Inr setAttrs_def split_paired_Ex)
  apply (auto)
  done

lemma createProgramObject_Inr:
  "(createProgramObject M nm s = Inr (p, s')) =
     (\<exists>n st. nm = Some n \<and> length n < M \<and> 3 \<le> memory s \<and> symbolTable s = Some st \<and>
        p = Some (length (objects s)) \<and>
        s' = s\<lparr>symbolTable := Some (st\<lparr>program := Some (length (objects s))\<rparr>),
               objects := objects s @
                  [\<lparr>name = n, kind = OBJ_PROGRAM,
                    attrs = ProgAttrs (Some (length (scopes s)))\<rparr>],
               scopes := scopes s @
                  [\<lparr>objList = None, owner = Some (length (objects s)), outer = None\<rparr>],
               memory := memory s - 3\<rparr>)"
  apply (simp add: createProgramObject_def andThen_eq_Inr createBaseObject_Inr
      allocateMemory_Inr createScope_Inr theSymTab_Inr setAttrs_def split_paired_Ex)
  apply (auto)
  done

lemma createVariableObject_Inr:
  "(createVariableObject M nm s = Inr (p, s')) =
     (\<exists>n st. nm = Some n \<and> length n < M \<and> 2 \<le> memory s \<and> symbolTable s = Some st \<and>
        p = Some (length (objects s)) \<and>
        s' = s\<lparr>objects := objects s @
                  [\<lparr>name = n, kind = OBJ_VARIABLE,
                    attrs = VarAttrs None (currentScope st)\<rparr>],
               memory := memory s - 2\<rparr>)"
  apply (simp add: createVariableObject_def andThen_eq_Inr createBaseObject_Inr
      allocateMemory_Inr theSymTab_Inr setAttrs_def split_paired_Ex)
  apply (auto)
  done

lemma createConstantObject_Inr:
  "(createConstantObject M nm s = Inr (p, s')) =
     (\<exists>n. nm = Some n \<and> length n < M \<and> 2 \<le> memory s \<and>
        p = Some (length (objects s)) \<and>
        s' = s\<lparr>objects := objects s @
                  [\<lparr>name = n, kind = OBJ_CONSTANT, attrs = ConstAttrs None\<rparr>],
               memory := memory s - 2\<rparr>)"
  apply (simp add: createConstantObject_def andThen_eq_Inr createBaseObject_Inr
      allocateMemory_Inr setAttrs_def split_paired_Ex)
  apply (auto)
  done

lemma createTypeObject_Inr:
  "(createTypeObject M nm s = Inr (p, s')) =
     (\<exists>n. nm = Some n \<and> length n < M \<and> 2 \<le> memory s \<and>
        p = Some (length (objects s)) \<and>
        s' = s\<lparr>objects := objects s @
                  [\<lparr>name = n, kind = OBJ_TYPE, attrs = TypeAttrs None\<rparr>],
               memory := memory s - 2\<rparr>)"
  apply (simp add: createTypeObject_def andThen_eq_Inr createBaseObject_Inr
      allocateMemory_Inr setAttrs_def split_paired_Ex)
  apply (auto)
  done

lemma createParameterObject_Inr:
  "(createParameterObject M nm k ow s = Inr (p, s')) =
     (\<exists>n. nm = Some n \<and> length n < M \<and> 2 \<le> memory s \<and>
        p = Some (length (objects s)) \<and>
        s' = s\<lparr>objects := objects s @
                  [\<lparr>name = n, kind = OBJ_PARAMETER, attrs = ParamAttrs k None ow\<rparr>],
               memory := memory s - 2\<rparr>)"
  apply (simp add: createParameterObject_def andThen_eq_Inr createBaseObject_Inr
      allocateMemory_Inr setAttrs_def split_paired_Ex)
  apply (auto)
  done

lemma constructors_fatal:
  assumes "nm = None \<or> (\<exists>n. nm = Some n \<and> M \<le> length n)"
  shows "createProgramObject M nm s = Inl ProcessExit"
    and "createVariableObject M nm s = Inl ProcessExit"
    and "createConstantObject M nm s = Inl ProcessExit"
    and "createTypeObject M nm s = Inl ProcessExit"
    and "createFunctionObject M nm s = Inl ProcessExit"
    and "createProcedureObject M nm s = Inl ProcessExit"
    and "createParameterObject M nm k ow s = Inl ProcessExit"
  by (simp_all add: createProgramObject_def createVariableObject_def createConstantObject_def
      createTypeObject_def createFunctionObject_def createProcedureObject_def
      createParameterObject_def createBaseObject_fatal [OF assms] andThen_Inl)

lemma returnsObject_new:
  "r = Inr (Some (length (objects s)), s') \<Longrightarrow>
   objects s' = objects s @ [\<lparr>name = n, kind = k, attrs = x\<rparr>] \<Longrightarrow> returnsObject r n k"
  by (simp add: returnsObject_def)

lemma constructors_return:
  assumes "length n < M" "3 \<le> memory s" "symbolTable s = Some st"
  shows "returnsObject (createProgramObject M (Some n) s) n OBJ_PROGRAM"
    and "returnsObject (createVariableObject M (Some n) s) n OBJ_VARIABLE"
    and "returnsObject (createConstantObject M (Some n) s) n OBJ_CONSTANT"
    and "returnsObject (createTypeObject M (Some n) s) n OBJ_TYPE"
    and "returnsObject (createFunctionObject M (Some n) s) n OBJ_FUNCTION"
    and "returnsObject (createProcedureObject M (Some n) s) n OBJ_PROCEDURE"
    and "returnsObject (createParameterObject M (Some n) k ow s) n OBJ_PARAMETER"
proof -
  show "returnsObject (createProgramObject M (Some n) s) n OBJ_PROGRAM"
    using assms by (intro returnsObject_new [where s = s]) (simp add: createProgramObject_Inr, simp)
  show "returnsObject (createVariableObject M (Some n) s) n OBJ_VARIABLE"
    using assms by (intro returnsObject_new [where s = s]) (simp add: createVariableObject_Inr, simp)
  show "returnsObject (createConstantObject M (Some n) s) n OBJ_CONSTANT"
    using assms by (intro returnsObject_new [where s = s]) (simp add: createConstantObject_Inr, simp)
  show "returnsObject (createTypeObject M (Some n) s) n OBJ_TYPE"
    using assms by (intro returnsObject_new [where s = s]) (simp add: createTypeObject_Inr, simp)
  show "returnsObject (createFunctionObject M (Some n) s) n OBJ_FUNCTION"
    using assms by (intro returnsObject_new [where s = s]) (simp add: createFunctionObject_Inr, simp)
  show "returnsObject (createProcedureObject M (Some n) s) n OBJ_PROCEDURE"
    using assms by (intro returnsObject_new [where s = s]) (simp add: createProcedureObject_Inr, simp)
  show "returnsObject (createParameterObject M (Some n) k ow s) n OBJ_PARAMETER"
    using assms by (intro returnsObject_new [where s = s]) (simp add: createParameterObject_Inr, simp)
qed

lemma builtins_run: "run 15 50 [] = Inr builtins"
  by code_simp

lemma inRoot_run:
  "run 15 50 [CreateProgram (Some ''PROG''), EnterBlock (Some 5),
     CreateParameter (Some ''p'') PARAM_VALUE (Some 7)] = Inr inRoot"
  by code_simp

lemma inFunction_run:
  "run 15 50 [CreateProgram (Some ''PROG''), EnterBlock (Some 5),
     CreateFunction (Some ''F''), EnterBlock (Some 6),
     CreateParameter (Some ''x'') PARAM_VALUE (Some 8), DeclareObject (Some 9),
     CreateVariable (Some ''v''), DeclareObject (Some 10),
     CreateParameter (Some ''y'') PARAM_REFERENCE (Some 8),
     CreateVariable (Some ''w'')] = Inr inFunction"
  by code_simp

subsection \<open>Array types\<close>

text \<open>
  Claim C2. With a positive size, a present element type and memory for one cell,
  \<open>makeArrayType\<close> returns a new Array type holding exactly that size and that element
  type. With a size that is not positive, or an absent element type, it returns \<open>NULL\<close>,
  and neither the type store nor the memory budget changes: no type is allocated.
\<close>

theorem makeArrayType_spec:
  "(0 < sint n \<and> T \<noteq> None \<and> 0 < memory s \<longrightarrow>
      (\<exists>s'. makeArrayType n T s = Inr (Some (length (types s)), s') \<and>
            types s' = types s @ [\<lparr>typeClass = TP_ARRAY, arraySize = n, elementType = T\<rparr>])) \<and>
   (sint n \<le> 0 \<or> T = None \<longrightarrow>
      (\<exists>s'. makeArrayType n T s = Inr (None, s') \<and> types s' = types s \<and>
            memory s' = memory s))"
  by (simp add: makeArrayType_def allocateMemory_ok andThen_Inr)

theorem makeArrayType_spec_witness:
  "(0 < sint (10 :: c_int) \<and> Some (0 :: nat) \<noteq> None \<and> 0 < memory builtins) \<and>
   (\<exists>s'. makeArrayType 10 (Some 0) builtins = Inr (Some (length (types builtins)), s') \<and>
      types s' = types builtins @
        [\<lparr>typeClass = TP_ARRAY, arraySize = 10, elementType = Some 0\<rparr>]) \<and>
   sint (0 :: c_int) \<le> 0 \<and>
   (\<exists>s'. makeArrayType 0 (Some 0) builtins = Inr (None, s') \<and>
      types s' = types builtins \<and> memory s' = memory builtins)"
  using makeArrayType_spec [of 10 "Some 0" builtins]
    makeArrayType_spec [of 0 "Some 0" builtins]
  by (simp add: builtins_def)

subsection \<open>Name validation in the constructors\<close>

text \<open>
  Claim C3, as amended. Each of the seven constructors ends the process when the name is
  absent or its length is at least \<open>MAX_IDENT_LEN\<close>. For every name shorter than the
  bound, the empty name included, each constructor returns a new object carrying exactly
  that name and the requested kind, given memory for its three allocations at most and
  an initialised symbol table.
\<close>

theorem constructors_validate_name:
  "((nm = None \<or> (\<exists>n. nm = Some n \<and> M \<le> length n)) \<longrightarrow>
      createProgramObject M nm s = Inl ProcessExit \<and>
      createVariableObject M nm s = Inl ProcessExit \<and>
      createConstantObject M nm s = Inl ProcessExit \<and>
      createTypeObject M nm s = Inl ProcessExit \<and>
      createFunctionObject M nm s = Inl ProcessExit \<and>
      createProcedureObject M nm s = Inl ProcessExit \<and>
      createParameterObject M nm k ow s = Inl ProcessExit) \<and>
   (length n < M \<and> 3 \<le> memory s \<and> symbolTable s \<noteq> None \<longrightarrow>
      returnsObject (createProgramObject M (Some n) s) n OBJ_PROGRAM \<and>
      returnsObject (createVariableObject M (Some n) s) n OBJ_VARIABLE \<and>
      returnsObject (createConstantObject M (Some n) s) n OBJ_CONSTANT \<and>
      returnsObject (createTypeObject M (Some n) s) n OBJ_TYPE \<and>
      returnsObject (createFunctionObject M (Some n) s) n OBJ_FUNCTION \<and>
      returnsObject (createProcedureObject M (Some n) s) n OBJ_PROCEDURE \<and>
      returnsObject (createParameterObject M (Some n) k ow s) n OBJ_PARAMETER)"
proof (intro conjI impI)
  assume a: "nm = None \<or> (\<exists>n. nm = Some n \<and> M \<le> length n)"
  show "createProgramObject M nm s = Inl ProcessExit" by (rule constructors_fatal [OF a])
  show "createVariableObject M nm s = Inl ProcessExit" by (rule constructors_fatal [OF a])
  show "createConstantObject M nm s = Inl ProcessExit" by (rule constructors_fatal [OF a])
  show "createTypeObject M nm s = Inl ProcessExit" by (rule constructors_fatal [OF a])
  show "createFunctionObject M nm s = Inl ProcessExit" by (rule constructors_fatal [OF a])
  show "createProcedureObject M nm s = Inl ProcessExit" by (rule constructors_fatal [OF a])
  show "createParameterObject M nm k ow s = Inl ProcessExit" by (rule constructors_fatal [OF a])
next
  assume "length n < M \<and> 3 \<le> memory s \<and> symbolTable s \<noteq> None"
  then obtain st where b: "length n < M" "3 \<le> memory s" "symbolTable s = Some st"
    by auto
  show "returnsObject (createProgramObject M (Some n) s) n OBJ_PROGRAM"
    by (rule constructors_return [OF b])
  show "returnsObject (createVariableObject M (Some n) s) n OBJ_VARIABLE"
    by (rule constructors_return [OF b])
  show "returnsObject (createConstantObject M (Some n) s) n OBJ_CONSTANT"
    by (rule constructors_return [OF b])
  show "returnsObject (createTypeObject M (Some n) s) n OBJ_TYPE"
    by (rule constructors_return [OF b])
  show "returnsObject (createFunctionObject M (Some n) s) n OBJ_FUNCTION"
    by (rule constructors_return [OF b])
  show "returnsObject (createProcedureObject M (Some n) s) n OBJ_PROCEDURE"
    by (rule constructors_return [OF b])
  show "returnsObject (createParameterObject M (Some n) k ow s) n OBJ_PARAMETER"
    by (rule constructors_return [OF b])
qed

theorem constructors_validate_name_witness:
  "createProgramObject 15 None builtins = Inl ProcessExit \<and>
   (15 \<le> length ''ABCDEFGHIJKLMNO'' \<and>
    createParameterObject 15 (Some ''ABCDEFGHIJKLMNO'') PARAM_VALUE None builtins =
      Inl ProcessExit) \<and>
   (length ''abc'' < 15 \<and> 3 \<le> memory builtins \<and> symbolTable builtins \<noteq> None) \<and>
   returnsObject (createFunctionObject 15 (Some ''abc'') builtins) ''abc'' OBJ_FUNCTION"
  using constructors_validate_name [where nm = None and M = 15 and s = builtins]
    constructors_validate_name [where nm = "Some ''ABCDEFGHIJKLMNO''" and M = 15
      and s = builtins and k = PARAM_VALUE and ow = None]
    constructors_validate_name [where n = "''abc''" and M = 15 and s = builtins]
  by (simp add: builtins_def)

text \<open>
  The claim as stated fails for the empty name: \<open>validateName\<close> tests only for \<open>NULL\<close> and
  for the length bound, so the empty name passes and an object named by it is returned.
\<close>

theorem empty_name_counterexample:
  "returnsObject (createVariableObject 15 (Some '''') builtins) '''' OBJ_VARIABLE \<and>
   createVariableObject 15 (Some '''') builtins \<noteq> Inl ProcessExit"
  by code_simp

subsection \<open>The Program constructor and the cursor\<close>

text \<open>
  Claim C5. For a valid name (with memory for three cells and an initialised symbol
  table) \<open>createProgramObject\<close> returns a new Program object, stores it in the \<open>program\<close>
  field, leaves \<open>currentScope\<close> as it was, and gives the object a new scope, appended to
  the scope store, whose owner is the new object and whose outer link is absent. Whenever
  the Program, Function or Procedure constructor returns, the cursor is what it was.
\<close>

theorem createProgramObject_spec:
  "(length n < M \<and> 3 \<le> memory s \<and> symbolTable s = Some st \<longrightarrow>
      (\<exists>s' st'. createProgramObject M (Some n) s = Inr (Some (length (objects s)), s') \<and>
         symbolTable s' = Some st' \<and> program st' = Some (length (objects s)) \<and>
         currentScope st' = currentScope st \<and>
         length (objects s') = Suc (length (objects s)) \<and>
         kind (objects s' ! length (objects s)) = OBJ_PROGRAM \<and>
         attrs (objects s' ! length (objects s)) = ProgAttrs (Some (length (scopes s))) \<and>
         scopes s' = scopes s @
           [\<lparr>objList = None, owner = Some (length (objects s)), outer = None\<rparr>])) \<and>
   (createProgramObject M nm s = Inr (p, s') \<or> createFunctionObject M nm s = Inr (p, s') \<or>
    createProcedureObject M nm s = Inr (p, s') \<longrightarrow> cursor s' = cursor s)"
  by (auto simp add: createProgramObject_Inr createFunctionObject_Inr
      createProcedureObject_Inr cursor_def)

theorem createProgramObject_spec_witness:
  "(length ''PROG'' < 15 \<and> 3 \<le> memory builtins \<and>
    symbolTable builtins =
      Some \<lparr>program = None, currentScope = None, globalObjectList = Some 0\<rparr>) \<and>
   (\<exists>s' st'. createProgramObject 15 (Some ''PROG'') builtins = Inr (Some 7, s') \<and>
      symbolTable s' = Some st' \<and> program st' = Some 7 \<and> currentScope st' = None \<and>
      scopes s' = builtinScopes @ [\<lparr>objList = None, owner = Some 7, outer = None\<rparr>]) \<and>
   createFunctionObject 15 (Some ''F'') inRoot =
     Inr (Some 9,
          inRoot\<lparr>objects := objects inRoot @
                   [\<lparr>name = ''F'', kind = OBJ_FUNCTION, attrs = FuncAttrs None None (Some 6)\<rparr>],
                 scopes := scopes inRoot @
                   [\<lparr>objList = None, owner = Some 9, outer = Some 5\<rparr>],
                 memory := 9\<rparr>) \<and>
   cursor (inRoot\<lparr>objects := objects inRoot @
                   [\<lparr>name = ''F'', kind = OBJ_FUNCTION, attrs = FuncAttrs None None (Some 6)\<rparr>],
                 scopes := scopes inRoot @
                   [\<lparr>objList = None, owner = Some 9, outer = Some 5\<rparr>],
                 memory := 9\<rparr>) = cursor inRoot"
proof -
  have f: "createFunctionObject 15 (Some ''F'') inRoot =
     Inr (Some 9,
          inRoot\<lparr>objects := objects inRoot @
                   [\<lparr>name = ''F'', kind = OBJ_FUNCTION, attrs = FuncAttrs None None (Some 6)\<rparr>],
                 scopes := scopes inRoot @
                   [\<lparr>objList = None, owner = Some 9, outer = Some 5\<rparr>],
                 memory := 9\<rparr>)"
    by (simp add: createFunctionObject_Inr inRoot_def builtinObjects_def builtinScopes_def)
  show ?thesis
    using f
      createProgramObject_spec [where n = "''PROG''" and M = 15 and s = builtins
        and st = "\<lparr>program = None, currentScope = None, globalObjectList = Some 0\<rparr>"
        and nm = None and p = None and s' = builtins]
      createProgramObject_spec [where nm = "Some ''F''" and M = 15 and s = inRoot
        and n = "[]" and st = "\<lparr>program = None, currentScope = None, globalObjectList = None\<rparr>"
        and p = "Some 9"
        and s' = "inRoot\<lparr>objects := objects inRoot @
                   [\<lparr>name = ''F'', kind = OBJ_FUNCTION, attrs = FuncAttrs None None (Some 6)\<rparr>],
                 scopes := scopes inRoot @
                   [\<lparr>objList = None, owner = Some 9, outer = Some 5\<rparr>],
                 memory := 9\<rparr>"]
    by (auto simp add: builtins_def builtinObjects_def builtinScopes_def)
qed

subsection \<open>Entering and leaving a block\<close>

text \<open>
  Claim C6. In an initialised symbol table, \<open>enterBlock\<close> with an absent scope changes
  nothing and with a present scope sets \<open>currentScope\<close> to it. When \<open>currentScope\<close> is
  present, \<open>exitBlock\<close> changes nothing if that scope has no outer scope and otherwise sets
  \<open>currentScope\<close> to the outer scope.
\<close>

theorem enterBlock_exitBlock_spec:
  "symbolTable s = Some st \<longrightarrow>
     enterBlock None s = Inr s \<and>
     enterBlock (Some c) s = Inr (s\<lparr>symbolTable := Some (st\<lparr>currentScope := Some c\<rparr>)\<rparr>) \<and>
     (currentScope st = Some d \<and> d < length (scopes s) \<longrightarrow>
        (outer (scopes s ! d) = None \<longrightarrow> exitBlock s = Inr s) \<and>
        (\<forall>d'. outer (scopes s ! d) = Some d' \<longrightarrow>
           exitBlock s = Inr (s\<lparr>symbolTable := Some (st\<lparr>currentScope := Some d'\<rparr>)\<rparr>)))"
  by (simp add: enterBlock_def exitBlock_def theSymTab_def andThen_def deref_def)

theorem enterBlock_exitBlock_spec_witness:
  "symbolTable inFunction =
     Some \<lparr>program = Some 7, currentScope = Some 6, globalObjectList = Some 0\<rparr> \<and>
   enterBlock None inFunction = Inr inFunction \<and>
   enterBlock (Some 5) inFunction =
     Inr (inFunction\<lparr>symbolTable :=
            Some \<lparr>program = Some 7, currentScope = Some 5, globalObjectList = Some 0\<rparr>\<rparr>) \<and>
   (6 < length (scopes inFunction) \<and> outer (scopes inFunction ! 6) = Some 5) \<and>
   exitBlock inFunction =
     Inr (inFunction\<lparr>symbolTable :=
            Some \<lparr>program = Some 7, currentScope = Some 5, globalObjectList = Some 0\<rparr>\<rparr>) \<and>
   (symbolTable inRoot =
      Some \<lparr>program = Some 7, currentScope = Some 5, globalObjectList = Some 0\<rparr> \<and>
    5 < length (scopes inRoot) \<and> outer (scopes inRoot ! 5) = None) \<and>
   exitBlock inRoot = Inr inRoot"
  using enterBlock_exitBlock_spec [where s = inFunction and c = 5 and d = 6
      and st = "\<lparr>program = Some 7, currentScope = Some 6, globalObjectList = Some 0\<rparr>"]
    enterBlock_exitBlock_spec [where s = inRoot and d = 5
      and st = "\<lparr>program = Some 7, currentScope = Some 5, globalObjectList = Some 0\<rparr>"]
  by (simp add: inFunction_def inRoot_def builtinScopes_def)

subsection \<open>Declarations that are dropped\<close>

text \<open>
  Claim C7. \<open>declareObject\<close> with an absent object, or with any object while
  \<open>currentScope\<close> is unset, returns the state it was given: no list, no store and not the
  error stream is changed, and the call neither exits nor faults.
\<close>

theorem declareObject_noop:
  "declareObject None s = Inr s \<and>
   (symbolTable s = Some st \<and> currentScope st = None \<longrightarrow> declareObject obj s = Inr s)"
  by (simp add: declareObject_def theSymTab_def andThen_def)

theorem declareObject_noop_witness:
  "declareObject None inFunction = Inr inFunction \<and>
   (symbolTable builtins =
      Some \<lparr>program = None, currentScope = None, globalObjectList = Some 0\<rparr> \<and>
    currentScope \<lparr>program = None, currentScope = None, globalObjectList = Some 0\<rparr> = None) \<and>
   declareObject (Some 3) builtins = Inr builtins"
  using declareObject_noop [where s = inFunction]
    declareObject_noop [where s = builtins and obj = "Some 3"
      and st = "\<lparr>program = None, currentScope = None, globalObjectList = Some 0\<rparr>"]
  by (simp add: builtins_def)

subsection \<open>Duplicating a constant\<close>

text \<open>
  Claim C9. For an absent input \<open>duplicateConstantValue\<close> returns \<open>NULL\<close> and the state
  unchanged. For a constant built as the constructors build it (with memory for one
  cell) it returns the address of a new cell, different from the address of the
  original, whose tag and payload equal the original's; the original is unchanged, and
  a write to either cell leaves the other as it was.
\<close>

theorem duplicateConstantValue_spec:
  "duplicateConstantValue None s = Inr (None, s) \<and>
   (a < length (constants s) \<and> 0 < memory s \<and> wellTagged (constants s ! a) \<longrightarrow>
      (\<exists>s'. duplicateConstantValue (Some a) s = Inr (Some (length (constants s)), s') \<and>
         length (constants s) \<noteq> a \<and>
         constants s' = constants s @ [constants s ! a] \<and>
         constType (constants s' ! length (constants s)) = constType (constants s ! a) \<and>
         payload (constants s' ! length (constants s)) = payload (constants s ! a) \<and>
         (\<forall>x. (constants s')[length (constants s) := x] ! a = constants s ! a) \<and>
         (\<forall>x. (constants s')[a := x] ! length (constants s) = constants s ! a)))"
  by (auto simp add: duplicateConstantValue_def malloc_def deref_def andThen_def wellTagged_def
      intValue_def charValue_def nth_append split: Payload.splits)

lemma withConstant_made: "makeIntConstant 42 builtins = Inr (Some 0, withConstant)"
  by code_simp

theorem duplicateConstantValue_spec_witness:
  "((0 :: nat) < length (constants withConstant) \<and> 0 < memory withConstant \<and>
    wellTagged (constants withConstant ! 0)) \<and>
   (\<exists>s'. duplicateConstantValue (Some 0) withConstant = Inr (Some 1, s') \<and>
      constants s' =
        [\<lparr>constType = TP_INT, payload = IntValue 42\<rparr>,
         \<lparr>constType = TP_INT, payload = IntValue 42\<rparr>] \<and>
      (\<forall>x. (constants s')[1 := x] ! 0 = \<lparr>constType = TP_INT, payload = IntValue 42\<rparr>) \<and>
      (\<forall>x. (constants s')[0 := x] ! 1 = \<lparr>constType = TP_INT, payload = IntValue 42\<rparr>))"
  using duplicateConstantValue_spec [where a = 0 and s = withConstant]
  by (auto simp add: withConstant_def builtins_def wellTagged_def)

subsection \<open>Frames: what an operation leaves alone\<close>

lemma map_update_same:
  "a < length xs \<Longrightarrow> f y = f (xs ! a) \<Longrightarrow> map f (xs[a := y]) = map f xs"
  by (simp add: map_update list_update_same_conv)

lemma kind_attrs_update: "kind (ob\<lparr>attrs := x\<rparr>) = kind ob"
  by simp

lemma bodyScope_FuncAttrs:
  "attrs ob = FuncAttrs pl rt sc \<Longrightarrow> bodyScope (ob\<lparr>attrs := FuncAttrs pl' rt' sc\<rparr>) = bodyScope ob"
  by (simp add: bodyScope_def split: ObjectKind.splits)

lemma bodyScope_ProcAttrs:
  "attrs ob = ProcAttrs pl sc \<Longrightarrow> bodyScope (ob\<lparr>attrs := ProcAttrs pl' sc\<rparr>) = bodyScope ob"
  by (simp add: bodyScope_def split: ObjectKind.splits)

lemma bodyScope_ParamAttrs:
  "attrs ob = ParamAttrs k t f \<Longrightarrow> bodyScope (ob\<lparr>attrs := ParamAttrs k' t' f'\<rparr>) = bodyScope ob"
  by (simp add: bodyScope_def split: ObjectKind.splits)

lemma deref_Inr: "(deref xs p = Inr x) = (\<exists>a. p = Some a \<and> a < length xs \<and> x = xs ! a)"
  by (auto simp: deref_def split: option.splits)

lemma writeRef_links:
  assumes "writeRef l v s = Inr s'" shows "sameLinks s s'"
proof (cases l)
  case GlobalObjectList
  with assms show ?thesis
    by (auto simp: sameLinks_def andThen_eq_Inr theSymTab_Inr scopeLinks_def objectScopes_def cursor_def)
next
  case (ObjListOf p)
  with assms show ?thesis
    by (auto simp: sameLinks_def andThen_eq_Inr deref_Inr scopeLinks_def objectScopes_def cursor_def map_update_same)
next
  case (FuncParamListOf p)
  with assms show ?thesis
    by (auto simp: sameLinks_def andThen_eq_Inr deref_Inr scopeLinks_def objectScopes_def cursor_def
        setAttrs_def map_update_same bodyScope_FuncAttrs split: Attributes.splits)
next
  case (ProcParamListOf p)
  with assms show ?thesis
    by (auto simp: sameLinks_def andThen_eq_Inr deref_Inr scopeLinks_def objectScopes_def cursor_def
        setAttrs_def map_update_same bodyScope_ProcAttrs split: Attributes.splits)
qed

lemma sameLinks_refl: "sameLinks s s"
  by (simp add: sameLinks_def)

lemma sameLinks_trans: "sameLinks s t \<Longrightarrow> sameLinks t u \<Longrightarrow> sameLinks s u"
  by (simp add: sameLinks_def)

lemma sameLinks_pushNode: "sameLinks s (pushNode obj s)"
  by (simp add: sameLinks_def pushNode_def scopeLinks_def objectScopes_def cursor_def)

lemma sameLinks_nodes: "sameLinks s (s\<lparr>nodes := N\<rparr>)"
  by (simp add: sameLinks_def scopeLinks_def objectScopes_def cursor_def)

lemma readRef_pushNode: "readRef l (pushNode obj s) = readRef l s"
  by (cases l) (simp_all add: pushNode_def theSymTab_def)

lemma addObject_Inr:
  "(addObject l obj s = Inr s') =
     (0 < memory s \<and>
      (\<exists>h. readRef l s = Inr h \<and>
         (case h of
            None \<Rightarrow> writeRef l (Some (length (nodes s))) (pushNode obj s) = Inr s'
          | Some first \<Rightarrow>
              (\<exists>cur. lastNode (length (nodes (pushNode obj s)) + 1)
                        (nodes (pushNode obj s)) first = Inr cur \<and>
                 s' = (pushNode obj s)\<lparr>nodes := (nodes (pushNode obj s))
                        [cur := (nodes (pushNode obj s) ! cur)
                           \<lparr>node_next := Some (length (nodes s))\<rparr>]\<rparr>))))"
proof (cases "memory s = 0")
  case True
  then show ?thesis
    by (simp add: addObject_def allocateMemory_def malloc_def andThen_def)
next
  case False
  have a: "allocateMemory s = Inr (s\<lparr>memory := memory s - 1\<rparr>)"
    using False by (simp add: allocateMemory_def malloc_def)
  have p: "(s\<lparr>memory := memory s - 1\<rparr>)
             \<lparr>nodes := nodes (s\<lparr>memory := memory s - 1\<rparr>) @
                [\<lparr>node_object = obj, node_next = None\<rparr>]\<rparr> = pushNode obj s"
    by (simp add: pushNode_def)
  have l: "length (nodes (s\<lparr>memory := memory s - 1\<rparr>)) = length (nodes s)"
    by simp
  show ?thesis
    unfolding addObject_def a andThen_Inr Let_def p l
    using False
    by (auto simp add: readRef_pushNode andThen_eq_Inr simp del: lastNode.simps
        split: option.splits)
qed

lemma addObject_links:
  "addObject l obj s = Inr s' \<Longrightarrow> sameLinks s s'"
  by (auto simp: addObject_Inr split: option.splits
      intro: sameLinks_trans [OF sameLinks_pushNode writeRef_links]
             sameLinks_trans [OF sameLinks_pushNode sameLinks_nodes])


lemma linksInvD1:
  "linksInv L ob cur \<Longrightarrow> c < length L \<Longrightarrow> snd (L ! c) = Some c' \<Longrightarrow> c' < c"
  by (simp add: linksInv_def)

lemma linksInvD2:
  "linksInv L ob cur \<Longrightarrow> c < length L \<Longrightarrow>
   \<exists>w<length ob. fst (L ! c) = Some w \<and> snd (ob ! w) = Inr (Some c)"
  by (simp add: linksInv_def)

lemma linksInvD3:
  "linksInv L ob cur \<Longrightarrow> w < length ob \<Longrightarrow>
   fst (ob ! w) = OBJ_PROGRAM \<or> fst (ob ! w) = OBJ_FUNCTION \<or> fst (ob ! w) = OBJ_PROCEDURE \<Longrightarrow>
   \<exists>c<length L. snd (ob ! w) = Inr (Some c) \<and> fst (L ! c) = Some w"
  unfolding linksInv_def by blast

lemma linksInvD4: "linksInv L ob (Some (Some c)) \<Longrightarrow> c < length L"
  by (simp add: linksInv_def)

lemma linksInvI:
  assumes "\<And>c c'. c < length L \<Longrightarrow> snd (L ! c) = Some c' \<Longrightarrow> c' < c"
    and "\<And>c. c < length L \<Longrightarrow> \<exists>w<length ob. fst (L ! c) = Some w \<and> snd (ob ! w) = Inr (Some c)"
    and "\<And>w. w < length ob \<Longrightarrow>
      fst (ob ! w) = OBJ_PROGRAM \<or> fst (ob ! w) = OBJ_FUNCTION \<or> fst (ob ! w) = OBJ_PROCEDURE \<Longrightarrow>
      \<exists>c<length L. snd (ob ! w) = Inr (Some c) \<and> fst (L ! c) = Some w"
    and "\<And>c. cur = Some (Some c) \<Longrightarrow> c < length L"
  shows "linksInv L ob cur"
  using assms unfolding linksInv_def by blast

lemma linksInv_plain:
  assumes inv: "linksInv L ob cur"
    and k: "k \<noteq> OBJ_PROGRAM" "k \<noteq> OBJ_FUNCTION" "k \<noteq> OBJ_PROCEDURE"
  shows "linksInv L (ob @ [(k, e)]) cur"
proof (rule linksInvI)
  fix c c' assume "c < length L" "snd (L ! c) = Some c'"
  then show "c' < c" by (rule linksInvD1 [OF inv])
next
  fix c assume "c < length L"
  from linksInvD2 [OF inv this] obtain w
    where "w < length ob" "fst (L ! c) = Some w" "snd (ob ! w) = Inr (Some c)" by blast
  then have "w < length (ob @ [(k, e)]) \<and> fst (L ! c) = Some w \<and>
      snd ((ob @ [(k, e)]) ! w) = Inr (Some c)"
    by (simp add: nth_append)
  then show "\<exists>w<length (ob @ [(k, e)]). fst (L ! c) = Some w \<and>
      snd ((ob @ [(k, e)]) ! w) = Inr (Some c)" by blast
next
  fix w assume w: "w < length (ob @ [(k, e)])"
    and kd: "fst ((ob @ [(k, e)]) ! w) = OBJ_PROGRAM \<or> fst ((ob @ [(k, e)]) ! w) = OBJ_FUNCTION \<or>
      fst ((ob @ [(k, e)]) ! w) = OBJ_PROCEDURE"
  have "w < length ob"
  proof (rule ccontr)
    assume "\<not> w < length ob"
    with w have "w = length ob" by simp
    with kd k show False by simp
  qed
  with kd linksInvD3 [OF inv, of w]
  show "\<exists>c<length L. snd ((ob @ [(k, e)]) ! w) = Inr (Some c) \<and> fst (L ! c) = Some w"
    by (simp add: nth_append)
next
  fix c assume "cur = Some (Some c)"
  with inv show "c < length L" by (simp add: linksInv_def)
qed

lemma linksInv_scope:
  assumes inv: "linksInv L ob cur"
    and x: "\<And>c'. x = Some c' \<Longrightarrow> c' < length L"
    and k: "k = OBJ_PROGRAM \<or> k = OBJ_FUNCTION \<or> k = OBJ_PROCEDURE"
  shows "linksInv (L @ [(Some (length ob), x)]) (ob @ [(k, Inr (Some (length L)))]) cur"
proof (rule linksInvI)
  fix c c' assume c: "c < length (L @ [(Some (length ob), x)])"
    and o: "snd ((L @ [(Some (length ob), x)]) ! c) = Some c'"
  show "c' < c"
  proof (cases "c < length L")
    case True
    with o linksInvD1 [OF inv, of c c'] show ?thesis by (simp add: nth_append)
  next
    case False
    with c have "c = length L" by simp
    with o x show ?thesis by simp
  qed
next
  fix c assume c: "c < length (L @ [(Some (length ob), x)])"
  show "\<exists>w<length (ob @ [(k, Inr (Some (length L)))]).
      fst ((L @ [(Some (length ob), x)]) ! c) = Some w \<and>
      snd ((ob @ [(k, Inr (Some (length L)))]) ! w) = Inr (Some c)"
  proof (cases "c < length L")
    case True
    from linksInvD2 [OF inv True] obtain w
      where "w < length ob" "fst (L ! c) = Some w" "snd (ob ! w) = Inr (Some c)" by blast
    with True have "w < length (ob @ [(k, Inr (Some (length L)))]) \<and>
      fst ((L @ [(Some (length ob), x)]) ! c) = Some w \<and>
      snd ((ob @ [(k, Inr (Some (length L)))]) ! w) = Inr (Some c)"
      by (simp add: nth_append)
    then show ?thesis by blast
  next
    case False
    with c have "c = length L" by simp
    then have "length ob < length (ob @ [(k, Inr (Some (length L)))]) \<and>
      fst ((L @ [(Some (length ob), x)]) ! c) = Some (length ob) \<and>
      snd ((ob @ [(k, Inr (Some (length L)))]) ! length ob) = Inr (Some c)"
      by simp
    then show ?thesis by blast
  qed
next
  fix w assume w: "w < length (ob @ [(k, Inr (Some (length L)))])"
    and kd: "fst ((ob @ [(k, Inr (Some (length L)))]) ! w) = OBJ_PROGRAM \<or>
      fst ((ob @ [(k, Inr (Some (length L)))]) ! w) = OBJ_FUNCTION \<or>
      fst ((ob @ [(k, Inr (Some (length L)))]) ! w) = OBJ_PROCEDURE"
  show "\<exists>c<length (L @ [(Some (length ob), x)]).
      snd ((ob @ [(k, Inr (Some (length L)))]) ! w) = Inr (Some c) \<and>
      fst ((L @ [(Some (length ob), x)]) ! c) = Some w"
  proof (cases "w < length ob")
    case True
    with kd linksInvD3 [OF inv, of w] obtain c
      where "c < length L" "snd (ob ! w) = Inr (Some c)" "fst (L ! c) = Some w"
      by (auto simp: nth_append)
    with True have "c < length (L @ [(Some (length ob), x)]) \<and>
      snd ((ob @ [(k, Inr (Some (length L)))]) ! w) = Inr (Some c) \<and>
      fst ((L @ [(Some (length ob), x)]) ! c) = Some w"
      by (simp add: nth_append)
    then show ?thesis by blast
  next
    case False
    with w have "w = length ob" by simp
    then have "length L < length (L @ [(Some (length ob), x)]) \<and>
      snd ((ob @ [(k, Inr (Some (length L)))]) ! w) = Inr (Some (length L)) \<and>
      fst ((L @ [(Some (length ob), x)]) ! length L) = Some w"
      by simp
    then show ?thesis by blast
  qed
next
  fix c assume "cur = Some (Some c)"
  with inv have "c < length L" by (simp add: linksInv_def)
  then show "c < length (L @ [(Some (length ob), x)])" by simp
qed

lemma linksInv_cursor:
  "linksInv L ob cur \<Longrightarrow> (\<And>c. p = Some c \<Longrightarrow> c < length L) \<Longrightarrow> linksInv L ob (Some p)"
  by (simp add: linksInv_def)

subsection \<open>The invariant of the scope tree\<close>

lemma scopeInv_sameLinks: "sameLinks s s' \<Longrightarrow> scopeInv s \<Longrightarrow> scopeInv s'"
  by (simp add: sameLinks_def scopeInv_def)

lemma bodyScope_simps:
  "bodyScope \<lparr>name = n, kind = OBJ_VARIABLE, attrs = x\<rparr> = Inl InvalidAccess"
  "bodyScope \<lparr>name = n, kind = OBJ_CONSTANT, attrs = x\<rparr> = Inl InvalidAccess"
  "bodyScope \<lparr>name = n, kind = OBJ_TYPE, attrs = x\<rparr> = Inl InvalidAccess"
  "bodyScope \<lparr>name = n, kind = OBJ_PARAMETER, attrs = x\<rparr> = Inl InvalidAccess"
  "bodyScope \<lparr>name = n, kind = OBJ_PROGRAM, attrs = ProgAttrs sc\<rparr> = Inr sc"
  "bodyScope \<lparr>name = n, kind = OBJ_FUNCTION, attrs = FuncAttrs pl rt sc\<rparr> = Inr sc"
  "bodyScope \<lparr>name = n, kind = OBJ_PROCEDURE, attrs = ProcAttrs pl sc\<rparr> = Inr sc"
  by (simp_all add: bodyScope_def)

lemma scopeInv_createVariableObject:
  "scopeInv s \<Longrightarrow> createVariableObject M nm s = Inr (p, s') \<Longrightarrow> scopeInv s'"
  by (auto simp: createVariableObject_Inr scopeInv_def scopeLinks_def objectScopes_def
      cursor_def bodyScope_simps intro!: linksInv_plain)

lemma scopeInv_createConstantObject:
  "scopeInv s \<Longrightarrow> createConstantObject M nm s = Inr (p, s') \<Longrightarrow> scopeInv s'"
  by (auto simp: createConstantObject_Inr scopeInv_def scopeLinks_def objectScopes_def
      cursor_def bodyScope_simps intro!: linksInv_plain)

lemma scopeInv_createTypeObject:
  "scopeInv s \<Longrightarrow> createTypeObject M nm s = Inr (p, s') \<Longrightarrow> scopeInv s'"
  by (auto simp: createTypeObject_Inr scopeInv_def scopeLinks_def objectScopes_def
      cursor_def bodyScope_simps intro!: linksInv_plain)

lemma scopeInv_createParameterObject:
  "scopeInv s \<Longrightarrow> createParameterObject M nm k ow s = Inr (p, s') \<Longrightarrow> scopeInv s'"
  by (auto simp: createParameterObject_Inr scopeInv_def scopeLinks_def objectScopes_def
      cursor_def bodyScope_simps intro!: linksInv_plain)

lemma scopeInv_createProgramObject:
  "scopeInv s \<Longrightarrow> createProgramObject M nm s = Inr (p, s') \<Longrightarrow> scopeInv s'"
  using linksInv_scope [of "scopeLinks s" "objectScopes s" "cursor s" None OBJ_PROGRAM]
  by (auto simp: createProgramObject_Inr scopeInv_def scopeLinks_def objectScopes_def
      cursor_def bodyScope_simps)

lemma scopeInv_createFunctionObject:
  assumes "scopeInv s" "createFunctionObject M nm s = Inr (p, s')"
  shows "scopeInv s'"
proof -
  from assms(2) obtain n st where st: "symbolTable s = Some st"
    and s': "s' = s\<lparr>objects := objects s @
                  [\<lparr>name = n, kind = OBJ_FUNCTION,
                    attrs = FuncAttrs None None (Some (length (scopes s)))\<rparr>],
               scopes := scopes s @
                  [\<lparr>objList = None, owner = Some (length (objects s)),
                    outer = currentScope st\<rparr>],
               memory := memory s - 3\<rparr>"
    by (auto simp: createFunctionObject_Inr)
  from assms(1) st have inv: "linksInv (scopeLinks s) (objectScopes s) (Some (currentScope st))"
    by (simp add: scopeInv_def cursor_def)
  have x: "\<And>c'. currentScope st = Some c' \<Longrightarrow> c' < length (scopeLinks s)"
    using inv by (auto dest: linksInvD4)
  from linksInv_scope [OF inv x, of "currentScope st" OBJ_FUNCTION]
  show ?thesis
    by (simp add: s' st scopeInv_def scopeLinks_def objectScopes_def cursor_def bodyScope_simps)
qed

lemma scopeInv_createProcedureObject:
  assumes "scopeInv s" "createProcedureObject M nm s = Inr (p, s')"
  shows "scopeInv s'"
proof -
  from assms(2) obtain n st where st: "symbolTable s = Some st"
    and s': "s' = s\<lparr>objects := objects s @
                  [\<lparr>name = n, kind = OBJ_PROCEDURE,
                    attrs = ProcAttrs None (Some (length (scopes s)))\<rparr>],
               scopes := scopes s @
                  [\<lparr>objList = None, owner = Some (length (objects s)),
                    outer = currentScope st\<rparr>],
               memory := memory s - 3\<rparr>"
    by (auto simp: createProcedureObject_Inr)
  from assms(1) st have inv: "linksInv (scopeLinks s) (objectScopes s) (Some (currentScope st))"
    by (simp add: scopeInv_def cursor_def)
  have x: "\<And>c'. currentScope st = Some c' \<Longrightarrow> c' < length (scopeLinks s)"
    using inv by (auto dest: linksInvD4)
  from linksInv_scope [OF inv x, of "currentScope st" OBJ_PROCEDURE]
  show ?thesis
    by (simp add: s' st scopeInv_def scopeLinks_def objectScopes_def cursor_def bodyScope_simps)
qed

lemma scopeInv_enterBlock:
  assumes "scopeInv s" "enterBlock p s = Inr s'" "\<And>c. p = Some c \<Longrightarrow> c < length (scopes s)"
  shows "scopeInv s'"
proof (cases p)
  case None
  with assms show ?thesis by (simp add: enterBlock_def)
next
  case (Some c)
  with assms(2) obtain st where st: "symbolTable s = Some st"
    and s': "s' = s\<lparr>symbolTable := Some (st\<lparr>currentScope := Some c\<rparr>)\<rparr>"
    by (auto simp: enterBlock_def andThen_eq_Inr theSymTab_Inr)
  from assms(1) have "linksInv (scopeLinks s) (objectScopes s) (Some (Some c))"
    using assms(3) [OF Some]
    by (auto simp: scopeInv_def scopeLinks_def intro: linksInv_cursor)
  then show ?thesis
    by (simp add: s' scopeInv_def scopeLinks_def objectScopes_def cursor_def)
qed

lemma scopeInv_exitBlock:
  assumes "scopeInv s" "exitBlock s = Inr s'"
  shows "scopeInv s'"
proof -
  from assms(2) obtain st c where st: "symbolTable s = Some st"
    and c: "currentScope st = Some c" "c < length (scopes s)"
    and s': "s' = s \<or> (\<exists>c'. outer (scopes s ! c) = Some c' \<and>
        s' = s\<lparr>symbolTable := Some (st\<lparr>currentScope := Some c'\<rparr>)\<rparr>)"
    by (auto simp: exitBlock_def andThen_eq_Inr theSymTab_Inr deref_Inr split: if_splits)
  from s' show ?thesis
  proof
    assume "s' = s" with assms(1) show ?thesis by simp
  next
    assume "\<exists>c'. outer (scopes s ! c) = Some c' \<and>
        s' = s\<lparr>symbolTable := Some (st\<lparr>currentScope := Some c'\<rparr>)\<rparr>"
    then obtain c' where o: "outer (scopes s ! c) = Some c'"
      and e: "s' = s\<lparr>symbolTable := Some (st\<lparr>currentScope := Some c'\<rparr>)\<rparr>" by blast
    from assms(1) have inv: "linksInv (scopeLinks s) (objectScopes s) (cursor s)"
      by (simp add: scopeInv_def)
    have "c' < c"
      using linksInvD1 [OF inv, of c c'] c o by (simp add: scopeLinks_def)
    with c have "c' < length (scopeLinks s)" by (simp add: scopeLinks_def)
    with inv have "linksInv (scopeLinks s) (objectScopes s) (Some (Some c'))"
      by (auto intro: linksInv_cursor)
    then show ?thesis
      by (simp add: e scopeInv_def scopeLinks_def objectScopes_def cursor_def)
  qed
qed

lemma declareObject_Inr_cases:
  assumes d: "declareObject p s = Inr s'"
  shows "s' = s \<or> (\<exists>l. addObject l p s = Inr s')"
proof (cases "p = None")
  case True
  with d show ?thesis by (simp add: declareObject_def)
next
  case False
  with d obtain st where st: "symbolTable s = Some st"
    and r: "(if currentScope st = None then Inr s
          else
            andThen (deref (objects s) p) (\<lambda>ob.
              if kind ob = OBJ_PARAMETER then
                andThen (deref (scopes s) (currentScope st)) (\<lambda>cur.
                andThen (deref (objects s) (owner cur)) (\<lambda>ow.
                  (case kind ow of
                     OBJ_FUNCTION \<Rightarrow>
                       (case attrs ow of
                          FuncAttrs pl rt sc \<Rightarrow> addObject (FuncParamListOf (owner cur)) p s
                        | _ \<Rightarrow> Inl InvalidAccess)
                   | OBJ_PROCEDURE \<Rightarrow>
                       (case attrs ow of
                          ProcAttrs pl sc \<Rightarrow> addObject (ProcParamListOf (owner cur)) p s
                        | _ \<Rightarrow> Inl InvalidAccess)
                   | _ \<Rightarrow> Inr s)))
              else addObject (ObjListOf (currentScope st)) p s)) = Inr s'"
    by (auto simp: declareObject_def andThen_eq_Inr theSymTab_Inr)
  show ?thesis
  proof (cases "currentScope st = None")
    case True
    with r show ?thesis by simp
  next
    case False
    with r obtain ob where ob: "deref (objects s) p = Inr ob"
      and r2: "(if kind ob = OBJ_PARAMETER then
                andThen (deref (scopes s) (currentScope st)) (\<lambda>cur.
                andThen (deref (objects s) (owner cur)) (\<lambda>ow.
                  (case kind ow of
                     OBJ_FUNCTION \<Rightarrow>
                       (case attrs ow of
                          FuncAttrs pl rt sc \<Rightarrow> addObject (FuncParamListOf (owner cur)) p s
                        | _ \<Rightarrow> Inl InvalidAccess)
                   | OBJ_PROCEDURE \<Rightarrow>
                       (case attrs ow of
                          ProcAttrs pl sc \<Rightarrow> addObject (ProcParamListOf (owner cur)) p s
                        | _ \<Rightarrow> Inl InvalidAccess)
                   | _ \<Rightarrow> Inr s)))
              else addObject (ObjListOf (currentScope st)) p s) = Inr s'"
      by (auto simp: andThen_eq_Inr)
    show ?thesis
    proof (cases "kind ob = OBJ_PARAMETER")
      case False
      with r2 show ?thesis by auto
    next
      case True
      from False obtain c where c: "currentScope st = Some c" by auto
      have cl: "c < length (scopes s)"
        using r2 True c by (auto simp: andThen_eq_Inr deref_Inr)
      obtain w where w: "owner (scopes s ! c) = Some w" and wl: "w < length (objects s)"
        using r2 True c by (auto simp: andThen_eq_Inr deref_Inr)
      have r3: "(case kind (objects s ! w) of
                     OBJ_FUNCTION \<Rightarrow>
                       (case attrs (objects s ! w) of
                          FuncAttrs pl rt sc \<Rightarrow> addObject (FuncParamListOf (owner (scopes s ! c))) p s
                        | _ \<Rightarrow> Inl InvalidAccess)
                   | OBJ_PROCEDURE \<Rightarrow>
                       (case attrs (objects s ! w) of
                          ProcAttrs pl sc \<Rightarrow> addObject (ProcParamListOf (owner (scopes s ! c))) p s
                        | _ \<Rightarrow> Inl InvalidAccess)
                   | _ \<Rightarrow> Inr s) = Inr s'"
        using r2 True c cl w wl by (simp add: deref_def andThen_def)
      show ?thesis
      proof (cases "kind (objects s ! w)")
        case OBJ_FUNCTION
        with r3 show ?thesis by (cases "attrs (objects s ! w)") auto
      next
        case OBJ_PROCEDURE
        with r3 show ?thesis by (cases "attrs (objects s ! w)") auto
      qed (use r3 in simp_all)
    qed
  qed
qed

lemma scopeInv_declareObject:
  assumes "scopeInv s" "declareObject p s = Inr s'"
  shows "scopeInv s'"
  using declareObject_Inr_cases [OF assms(2)] assms(1)
  by (auto dest: addObject_links scopeInv_sameLinks)
lemma dropResult_Inr: "(dropResult r = Inr s') = (\<exists>p. r = Inr (p, s'))"
  by (auto simp: dropResult_def andThen_eq_Inr)

lemma scopeInv_step:
  assumes "scopeInv s" "step M c s = Inr s'"
  shows "scopeInv s'"
proof (cases c)
  case (EnterBlock p)
  with assms show ?thesis
    by (cases p) (auto split: if_splits intro: scopeInv_enterBlock)
qed (use assms in \<open>auto simp: dropResult_Inr
      intro: scopeInv_createProgramObject scopeInv_createVariableObject
        scopeInv_createConstantObject scopeInv_createTypeObject scopeInv_createFunctionObject
        scopeInv_createProcedureObject scopeInv_createParameterObject scopeInv_exitBlock
        scopeInv_declareObject\<close>)

lemma scopeInv_steps:
  "scopeInv s \<Longrightarrow> steps M cs s = Inr s' \<Longrightarrow> scopeInv s'"
  by (induction cs arbitrary: s) (auto simp: andThen_eq_Inr intro: scopeInv_step)

lemma makeIntType_Inr:
  "(makeIntType s = Inr (t, s')) =
     (0 < memory s \<and> t = Some (length (types s)) \<and>
      s' = s\<lparr>types := types s @ [\<lparr>typeClass = TP_INT, arraySize = 0, elementType = None\<rparr>],
             memory := memory s - 1\<rparr>)"
  by (auto simp: makeIntType_def allocateMemory_Inr andThen_eq_Inr)

lemma makeCharType_Inr:
  "(makeCharType s = Inr (t, s')) =
     (0 < memory s \<and> t = Some (length (types s)) \<and>
      s' = s\<lparr>types := types s @ [\<lparr>typeClass = TP_CHAR, arraySize = 0, elementType = None\<rparr>],
             memory := memory s - 1\<rparr>)"
  by (auto simp: makeCharType_def allocateMemory_Inr andThen_eq_Inr)

lemma makeIntType_links: "makeIntType s = Inr (t, s') \<Longrightarrow> sameLinks s s'"
  by (auto simp: makeIntType_Inr sameLinks_def scopeLinks_def objectScopes_def cursor_def)

lemma makeCharType_links: "makeCharType s = Inr (t, s') \<Longrightarrow> sameLinks s s'"
  by (auto simp: makeCharType_Inr sameLinks_def scopeLinks_def objectScopes_def cursor_def)

lemma set_returnType_links: "set_returnType obj t s = Inr s' \<Longrightarrow> sameLinks s s'"
  by (auto simp: set_returnType_def sameLinks_def andThen_eq_Inr deref_Inr scopeLinks_def
      objectScopes_def cursor_def setAttrs_def map_update_same bodyScope_FuncAttrs
      split: Attributes.splits)

lemma set_paramType_links: "set_paramType obj t s = Inr s' \<Longrightarrow> sameLinks s s'"
  by (auto simp: set_paramType_def sameLinks_def andThen_eq_Inr deref_Inr scopeLinks_def
      objectScopes_def cursor_def setAttrs_def map_update_same bodyScope_ParamAttrs
      split: Attributes.splits)

lemma freshTable_sameLinks: "sameLinks s s' \<Longrightarrow> freshTable s \<longrightarrow> freshTable s'"
  by (auto simp: freshTable_def sameLinks_def scopeInv_def)

lemma freshTable_steps:
  "makeIntType s = Inr (t, s') \<Longrightarrow> freshTable s \<longrightarrow> freshTable s'"
  "makeCharType s = Inr (t, s') \<Longrightarrow> freshTable s \<longrightarrow> freshTable s'"
  "set_returnType obj t s = Inr s' \<Longrightarrow> freshTable s \<longrightarrow> freshTable s'"
  "set_paramType obj t s = Inr s' \<Longrightarrow> freshTable s \<longrightarrow> freshTable s'"
  "addObject l obj s = Inr s' \<Longrightarrow> freshTable s \<longrightarrow> freshTable s'"
  by (blast dest: makeIntType_links makeCharType_links set_returnType_links
      set_paramType_links addObject_links freshTable_sameLinks)+

lemma freshTable_creates:
  "createFunctionObject M nm s = Inr (p, s') \<Longrightarrow> freshTable s \<longrightarrow> freshTable s'"
  "createProcedureObject M nm s = Inr (p, s') \<Longrightarrow> freshTable s \<longrightarrow> freshTable s'"
  "createParameterObject M nm k ow s = Inr (p, s') \<Longrightarrow> freshTable s \<longrightarrow> freshTable s'"
proof -
  show "createFunctionObject M nm s = Inr (p, s') \<Longrightarrow> freshTable s \<longrightarrow> freshTable s'"
    using scopeInv_createFunctionObject [of s M nm p s']
    by (auto simp: freshTable_def) (auto simp: createFunctionObject_Inr cursor_def)
  show "createProcedureObject M nm s = Inr (p, s') \<Longrightarrow> freshTable s \<longrightarrow> freshTable s'"
    using scopeInv_createProcedureObject [of s M nm p s']
    by (auto simp: freshTable_def) (auto simp: createProcedureObject_Inr cursor_def)
  show "createParameterObject M nm k ow s = Inr (p, s') \<Longrightarrow> freshTable s \<longrightarrow> freshTable s'"
    using scopeInv_createParameterObject [of s M nm k ow p s']
    by (auto simp: freshTable_def) (auto simp: createParameterObject_Inr cursor_def)
qed

lemma freshTable_globals:
  "freshTable (s\<lparr>globalIntType := x\<rparr>) = freshTable s"
  "freshTable (s\<lparr>globalCharType := x\<rparr>) = freshTable s"
  by (simp_all add: freshTable_def scopeInv_def scopeLinks_def objectScopes_def cursor_def)

lemma freshTable_reset:
  "scopeInv s \<Longrightarrow>
   freshTable (s\<lparr>memory := m, symbolTable :=
      Some \<lparr>program = None, currentScope = None, globalObjectList = None\<rparr>\<rparr>)"
  by (simp add: freshTable_def scopeInv_def scopeLinks_def objectScopes_def cursor_def
      linksInv_def)

lemma initSymTab_freshTable:
  "scopeInv s \<Longrightarrow> initSymTab M s = Inr s' \<Longrightarrow> freshTable s'"
  apply (clarsimp simp: initSymTab_def andThen_eq_Inr allocateMemory_Inr)
  apply (drule freshTable_reset [where m = "memory s - Suc 0"])
  apply (auto simp: freshTable_globals dest!: freshTable_steps freshTable_creates)
  done

lemma scopeInv_startState: "scopeInv (startState m)"
  by (simp add: scopeInv_def linksInv_def startState_def scopeLinks_def objectScopes_def
      cursor_def)

lemma run_scopeInv:
  assumes "run M m cs = Inr s" shows "scopeInv s"
proof -
  from assms obtain t where i: "initSymTab M (startState m) = Inr t"
    and r: "steps M cs t = Inr s"
    by (auto simp: run_def andThen_eq_Inr)
  from initSymTab_freshTable [OF scopeInv_startState i] have "scopeInv t"
    by (simp add: freshTable_def)
  then show ?thesis using r by (rule scopeInv_steps)
qed

lemma rootScope_terminates:
  assumes ord: "\<And>c c'. c < length S \<Longrightarrow> outer (S ! c) = Some c' \<Longrightarrow> c' < c"
  shows "c < length S \<Longrightarrow> c < fuel \<Longrightarrow>
    \<exists>r\<le>c. rootScope fuel S c = Inr r \<and> outer (S ! r) = None"
proof (induction c arbitrary: fuel rule: less_induct)
  case (less c)
  from less.prems(2) obtain f where f: "fuel = Suc f" by (cases fuel) auto
  show ?case
  proof (cases "outer (S ! c)")
    case None
    with less.prems f show ?thesis by (simp add: deref_def andThen_def)
  next
    case (Some c')
    with ord less.prems(1) have lt: "c' < c" by blast
    with less.prems f have "c' < length S" "c' < f" by simp_all
    from less.IH [OF lt this] obtain r
      where "r \<le> c'" "rootScope f S c' = Inr r" "outer (S ! r) = None" by blast
    with Some lt less.prems(1) f show ?thesis
      by (auto simp: deref_def andThen_def)
  qed
qed

lemma bodyScope_kind:
  "bodyScope ob = Inr p \<Longrightarrow>
   kind ob = OBJ_PROGRAM \<or> kind ob = OBJ_FUNCTION \<or> kind ob = OBJ_PROCEDURE"
  by (cases "kind ob") (simp_all add: bodyScope_def)


lemma andThen_assoc: "andThen (andThen m f) g = andThen m (\<lambda>x. andThen (f x) g)"
  by (cases m) (simp_all add: andThen_def)

lemma steps_append: "steps M (xs @ ys) s = andThen (steps M xs s) (steps M ys)"
proof (induction xs arbitrary: s)
  case Nil
  then show ?case by (simp add: andThen_Inr)
next
  case (Cons x xs)
  have "steps M (xs @ ys) = (\<lambda>t. andThen (steps M xs t) (steps M ys))"
    by (rule ext) (rule Cons.IH)
  then show ?case by (simp add: andThen_assoc)
qed

lemma run_append: "run M m (xs @ ys) = andThen (run M m xs) (steps M ys)"
proof -
  have "steps M (xs @ ys) = (\<lambda>t. andThen (steps M xs t) (steps M ys))"
    by (rule ext) (rule steps_append)
  then show ?thesis by (simp add: run_def andThen_assoc)
qed

lemma grownFrom_refl: "grownFrom s s"
  by (simp add: grownFrom_def)

lemma grownFrom_trans: "grownFrom s t \<Longrightarrow> grownFrom t u \<Longrightarrow> grownFrom s u"
  by (auto simp: grownFrom_def)

lemma grownFrom_sameLinks: "sameLinks s s' \<Longrightarrow> grownFrom s s'"
  by (simp add: sameLinks_def grownFrom_def)

text \<open>What one call of the driver does to the links.\<close>

lemma step_links:
  assumes "step M c s = Inr s'"
  shows "(sameLinks s s' \<or>
          scopeLinks s' = scopeLinks s \<and> objectScopes s' = objectScopes s) \<or>
         (\<exists>k. scopeLinks s' = scopeLinks s \<and>
            objectScopes s' = objectScopes s @ [(k, Inl InvalidAccess)] \<and>
            k \<noteq> OBJ_PROGRAM \<and> k \<noteq> OBJ_FUNCTION \<and> k \<noteq> OBJ_PROCEDURE) \<or>
         (\<exists>nm st. c = CreateProgram nm \<and> symbolTable s = Some st \<and>
            scopeLinks s' = scopeLinks s @ [(Some (length (objects s)), None)] \<and>
            objectScopes s' = objectScopes s @ [(OBJ_PROGRAM, Inr (Some (length (scopes s))))]) \<or>
         (\<exists>nm st. c = CreateFunction nm \<and> symbolTable s = Some st \<and>
            scopeLinks s' = scopeLinks s @ [(Some (length (objects s)), currentScope st)] \<and>
            objectScopes s' = objectScopes s @ [(OBJ_FUNCTION, Inr (Some (length (scopes s))))]) \<or>
         (\<exists>nm st. c = CreateProcedure nm \<and> symbolTable s = Some st \<and>
            scopeLinks s' = scopeLinks s @ [(Some (length (objects s)), currentScope st)] \<and>
            objectScopes s' = objectScopes s @ [(OBJ_PROCEDURE, Inr (Some (length (scopes s))))])"
proof (cases c)
  case (CreateProgram nm)
  with assms show ?thesis
    by (auto simp: dropResult_Inr createProgramObject_Inr scopeLinks_def objectScopes_def
        bodyScope_simps)
next
  case (CreateVariable nm)
  with assms show ?thesis
    by (auto simp: dropResult_Inr createVariableObject_Inr scopeLinks_def objectScopes_def
        bodyScope_simps)
next
  case (CreateConstant nm)
  with assms show ?thesis
    by (auto simp: dropResult_Inr createConstantObject_Inr scopeLinks_def objectScopes_def
        bodyScope_simps)
next
  case (CreateType nm)
  with assms show ?thesis
    by (auto simp: dropResult_Inr createTypeObject_Inr scopeLinks_def objectScopes_def
        bodyScope_simps)
next
  case (CreateFunction nm)
  with assms show ?thesis
    by (auto simp: dropResult_Inr createFunctionObject_Inr scopeLinks_def objectScopes_def
        bodyScope_simps)
next
  case (CreateProcedure nm)
  with assms show ?thesis
    by (auto simp: dropResult_Inr createProcedureObject_Inr scopeLinks_def objectScopes_def
        bodyScope_simps)
next
  case (CreateParameter nm k ow)
  with assms show ?thesis
    by (auto simp: dropResult_Inr createParameterObject_Inr scopeLinks_def objectScopes_def
        bodyScope_simps)
next
  case (EnterBlock p)
  with assms have "scopeLinks s' = scopeLinks s \<and> objectScopes s' = objectScopes s"
    by (cases p)
      (auto simp: enterBlock_def andThen_eq_Inr theSymTab_Inr scopeLinks_def objectScopes_def
        split: if_splits)
  then show ?thesis by blast
next
  case ExitBlock
  with assms have "scopeLinks s' = scopeLinks s \<and> objectScopes s' = objectScopes s"
    by (auto simp: exitBlock_def andThen_eq_Inr theSymTab_Inr scopeLinks_def objectScopes_def
        split: if_splits)
  then show ?thesis by blast
next
  case (DeclareObject p)
  with assms have "declareObject p s = Inr s'" by simp
  from declareObject_Inr_cases [OF this] have "sameLinks s s'"
    by (auto dest: addObject_links simp: sameLinks_def)
  then show ?thesis by blast
qed

lemma step_grownFrom: "step M c s = Inr s' \<Longrightarrow> grownFrom s s'"
  using step_links [of M c s s'] by (auto simp: grownFrom_def sameLinks_def)

lemma steps_grownFrom: "steps M cs s = Inr s' \<Longrightarrow> grownFrom s s'"
proof (induction cs arbitrary: s)
  case Nil
  then show ?case by (simp add: grownFrom_refl)
next
  case (Cons c cs)
  then show ?case
    by (auto simp: andThen_eq_Inr dest: step_grownFrom intro: grownFrom_trans)
qed

lemma grownFrom_scope:
  assumes "grownFrom s s'" "c < length (scopes s)"
  shows "c < length (scopes s') \<and> owner (scopes s' ! c) = owner (scopes s ! c) \<and>
    outer (scopes s' ! c) = outer (scopes s ! c)"
proof -
  from assms(1) obtain L where L: "scopeLinks s' = scopeLinks s @ L"
    by (auto simp: grownFrom_def)
  then have "length (scopes s') = length (scopes s) + length L"
    by (metis length_append length_map scopeLinks_def)
  with assms(2) have l: "c < length (scopes s')" by simp
  from L assms(2) have "scopeLinks s' ! c = scopeLinks s ! c"
    by (simp add: nth_append scopeLinks_def)
  with l assms(2) show ?thesis by (simp add: scopeLinks_def)
qed

lemma grownFrom_object:
  assumes "grownFrom s s'" "w < length (objects s)"
  shows "w < length (objects s') \<and> kind (objects s' ! w) = kind (objects s ! w) \<and>
    bodyScope (objects s' ! w) = bodyScope (objects s ! w)"
proof -
  from assms(1) obtain ob where L: "objectScopes s' = objectScopes s @ ob"
    by (auto simp: grownFrom_def)
  then have "length (objects s') = length (objects s) + length ob"
    by (metis length_append length_map objectScopes_def)
  with assms(2) have l: "w < length (objects s')" by simp
  from L assms(2) have "objectScopes s' ! w = objectScopes s ! w"
    by (simp add: nth_append objectScopes_def)
  with l assms(2) show ?thesis by (simp add: objectScopes_def)
qed


lemma step_creates_scope:
  assumes "step M c s = Inr s'" and "c = CreateFunction nm \<or> c = CreateProcedure nm"
  shows "\<exists>st. symbolTable s = Some st \<and>
     scopeLinks s' = scopeLinks s @ [(Some (length (objects s)), currentScope st)] \<and>
     (objectScopes s' = objectScopes s @ [(OBJ_FUNCTION, Inr (Some (length (scopes s))))] \<or>
      objectScopes s' = objectScopes s @ [(OBJ_PROCEDURE, Inr (Some (length (scopes s))))])"
  using assms
  by (auto simp: dropResult_Inr createFunctionObject_Inr createProcedureObject_Inr
      scopeLinks_def objectScopes_def bodyScope_simps)

lemma run_split:
  assumes "run M m (cs1 @ c # cs2) = Inr s"
  shows "\<exists>s1 s2. run M m cs1 = Inr s1 \<and> step M c s1 = Inr s2 \<and> steps M cs2 s2 = Inr s"
  using assms by (auto simp: run_append andThen_eq_Inr)

lemma created_scope:
  assumes r: "run M m (cs1 @ c # cs2) = Inr s"
    and c: "c = CreateFunction nm \<or> c = CreateProcedure nm"
    and r1: "run M m cs1 = Inr s1" and st: "symbolTable s1 = Some st1"
  shows "length (objects s1) < length (objects s) \<and>
    (kind (objects s ! length (objects s1)) = OBJ_FUNCTION \<or>
     kind (objects s ! length (objects s1)) = OBJ_PROCEDURE) \<and>
    bodyScope (objects s ! length (objects s1)) = Inr (Some (length (scopes s1))) \<and>
    length (scopes s1) < length (scopes s) \<and>
    owner (scopes s ! length (scopes s1)) = Some (length (objects s1)) \<and>
    outer (scopes s ! length (scopes s1)) = currentScope st1"
proof -
  from run_split [OF r] r1 obtain s2
    where s2: "step M c s1 = Inr s2" and rest: "steps M cs2 s2 = Inr s" by auto
  from step_creates_scope [OF s2 c] st
  have L: "scopeLinks s2 = scopeLinks s1 @ [(Some (length (objects s1)), currentScope st1)]"
    and ob: "objectScopes s2 = objectScopes s1 @ [(OBJ_FUNCTION, Inr (Some (length (scopes s1))))] \<or>
      objectScopes s2 = objectScopes s1 @ [(OBJ_PROCEDURE, Inr (Some (length (scopes s1))))]"
    by auto
  have ls: "length (scopeLinks s1) = length (scopes s1)"
    and lo: "length (objectScopes s1) = length (objects s1)"
    by (simp_all add: scopeLinks_def objectScopes_def)
  from L have "length (scopeLinks s2) = Suc (length (scopes s1))" by (simp add: ls)
  then have bl: "length (scopes s1) < length (scopes s2)" by (simp add: scopeLinks_def)
  from L have "scopeLinks s2 ! length (scopes s1) =
      (Some (length (objects s1)), currentScope st1)"
    by (simp add: nth_append ls)
  with bl have sc: "owner (scopes s2 ! length (scopes s1)) = Some (length (objects s1))"
    "outer (scopes s2 ! length (scopes s1)) = currentScope st1"
    by (simp_all add: scopeLinks_def)
  from ob have "length (objectScopes s2) = Suc (length (objects s1))" by (auto simp: lo)
  then have vl: "length (objects s1) < length (objects s2)" by (simp add: objectScopes_def)
  from ob have "objectScopes s2 ! length (objects s1) =
        (OBJ_FUNCTION, Inr (Some (length (scopes s1)))) \<or>
      objectScopes s2 ! length (objects s1) =
        (OBJ_PROCEDURE, Inr (Some (length (scopes s1))))"
    by (auto simp: nth_append lo)
  with vl have o2: "(kind (objects s2 ! length (objects s1)) = OBJ_FUNCTION \<or>
      kind (objects s2 ! length (objects s1)) = OBJ_PROCEDURE) \<and>
      bodyScope (objects s2 ! length (objects s1)) = Inr (Some (length (scopes s1)))"
    by (auto simp: objectScopes_def)
  from steps_grownFrom [OF rest] have g: "grownFrom s2 s" .
  from grownFrom_scope [OF g bl] grownFrom_object [OF g vl] sc o2 show ?thesis by simp
qed

lemma rootScope_Suc: "rootScope fuel S c = Inr r \<Longrightarrow> rootScope (Suc fuel) S c = Inr r"
proof (induction fuel arbitrary: c)
  case 0
  then show ?case by simp
next
  case (Suc fuel)
  from Suc.prems have cl: "c < length S" by (auto simp: andThen_eq_Inr deref_Inr)
  show ?case
  proof (cases "outer (S ! c)")
    case None
    with Suc.prems cl show ?thesis by (simp add: deref_def andThen_def)
  next
    case (Some c')
    with Suc.prems cl have "rootScope fuel S c' = Inr r" by (simp add: deref_def andThen_def)
    from Suc.IH [OF this] Some cl show ?thesis by (simp add: deref_def andThen_def)
  qed
qed

lemma rootScope_through_outer:
  assumes ord: "\<And>c c'. c < length S \<Longrightarrow> outer (S ! c) = Some c' \<Longrightarrow> c' < c"
    and b: "b < length S" and e: "outer (S ! b) = Some e"
  shows "rootScope (length S) S b = rootScope (length S) S e"
proof -
  from b obtain f where f: "length S = Suc f" by (cases "length S") auto
  from ord [OF b e] have eb: "e < b" .
  with b f have "e < length S" "e < f" by simp_all
  from rootScope_terminates [of S e f, OF ord this] obtain r
    where r: "rootScope f S e = Inr r" by blast
  from b e have "rootScope (Suc f) S b = rootScope f S e" by (simp add: deref_def andThen_def)
  with r rootScope_Suc [OF r] f show ?thesis by simp
qed

text \<open>
  Every Function or Procedure object of a run was created by \<open>initSymTab\<close> or by a
  constructor call of the run.
\<close>

lemma created_by:
  "run M m cs = Inr s \<Longrightarrow> v < length (objects s) \<Longrightarrow>
   kind (objects s ! v) = OBJ_FUNCTION \<or> kind (objects s ! v) = OBJ_PROCEDURE \<Longrightarrow>
   (\<exists>s0. initSymTab M (startState m) = Inr s0 \<and> v < length (objects s0)) \<or>
   (\<exists>cs1 nm cs2 s1.
      (cs = cs1 @ CreateFunction nm # cs2 \<or> cs = cs1 @ CreateProcedure nm # cs2) \<and>
      run M m cs1 = Inr s1 \<and> v = length (objects s1))"
proof (induction cs arbitrary: s rule: rev_induct)
  case Nil
  then show ?case by (auto simp: run_def andThen_eq_Inr)
next
  case (snoc c cs)
  from snoc.prems(1) obtain s1 where r1: "run M m cs = Inr s1" and st: "step M c s1 = Inr s"
    by (auto simp: run_append andThen_eq_Inr)
  show ?case
  proof (cases "v < length (objects s1)")
    case True
    from grownFrom_object [OF step_grownFrom [OF st] True] snoc.prems(3)
    have "kind (objects s1 ! v) = OBJ_FUNCTION \<or> kind (objects s1 ! v) = OBJ_PROCEDURE"
      by simp
    from snoc.IH [OF r1 True this] show ?thesis
    proof (elim disjE exE conjE)
      fix s0 assume "initSymTab M (startState m) = Inr s0" "v < length (objects s0)"
      then show ?thesis by blast
    next
      fix cs1 nm cs2 t
      assume "cs = cs1 @ CreateFunction nm # cs2" "run M m cs1 = Inr t" "v = length (objects t)"
      then have "cs @ [c] = cs1 @ CreateFunction nm # (cs2 @ [c]) \<and> run M m cs1 = Inr t \<and>
          v = length (objects t)" by simp
      then show ?thesis by blast
    next
      fix cs1 nm cs2 t
      assume "cs = cs1 @ CreateProcedure nm # cs2" "run M m cs1 = Inr t" "v = length (objects t)"
      then have "cs @ [c] = cs1 @ CreateProcedure nm # (cs2 @ [c]) \<and> run M m cs1 = Inr t \<and>
          v = length (objects t)" by simp
      then show ?thesis by blast
    qed
  next
    case False
    have lo: "\<And>t. length (objectScopes t) = length (objects t)"
      by (simp add: objectScopes_def)
    have kd: "kind (objects s ! v) = fst (objectScopes s ! v)"
      using snoc.prems(2) by (simp add: objectScopes_def)
    from step_links [OF st] have "\<exists>nm. (c = CreateFunction nm \<or> c = CreateProcedure nm) \<and>
        v = length (objects s1)"
    proof (elim disjE exE conjE)
      assume "sameLinks s1 s"
      then have "length (objects s) = length (objects s1)"
        by (metis lo sameLinks_def)
      with False snoc.prems(2) show ?thesis by simp
    next
      assume "objectScopes s = objectScopes s1"
      then have "length (objects s) = length (objects s1)" by (metis lo)
      with False snoc.prems(2) show ?thesis by simp
    next
      fix k assume o: "objectScopes s = objectScopes s1 @ [(k, Inl InvalidAccess)]"
        and k: "k \<noteq> OBJ_FUNCTION" "k \<noteq> OBJ_PROCEDURE"
      from o have "length (objects s) = Suc (length (objects s1))" by (metis lo length_append_singleton)
      with False snoc.prems(2) have "v = length (objects s1)" by simp
      with o kd have "kind (objects s ! v) = k" by (simp add: nth_append lo)
      with k snoc.prems(3) show ?thesis by simp
    next
      fix nm st
      assume o: "objectScopes s = objectScopes s1 @ [(OBJ_PROGRAM, Inr (Some (length (scopes s1))))]"
      from o have "length (objects s) = Suc (length (objects s1))" by (metis lo length_append_singleton)
      with False snoc.prems(2) have "v = length (objects s1)" by simp
      with o kd have "kind (objects s ! v) = OBJ_PROGRAM" by (simp add: nth_append lo)
      with snoc.prems(3) show ?thesis by simp
    next
      fix nm st
      assume c: "c = CreateFunction nm"
        and o: "objectScopes s = objectScopes s1 @ [(OBJ_FUNCTION, Inr (Some (length (scopes s1))))]"
      from o have "length (objects s) = Suc (length (objects s1))" by (metis lo length_append_singleton)
      with False snoc.prems(2) have "v = length (objects s1)" by simp
      with c show ?thesis by blast
    next
      fix nm st
      assume c: "c = CreateProcedure nm"
        and o: "objectScopes s = objectScopes s1 @ [(OBJ_PROCEDURE, Inr (Some (length (scopes s1))))]"
      from o have "length (objects s) = Suc (length (objects s1))" by (metis lo length_append_singleton)
      with False snoc.prems(2) have "v = length (objects s1)" by simp
      with c show ?thesis by blast
    qed
    then obtain nm where "(c = CreateFunction nm \<or> c = CreateProcedure nm)"
      "v = length (objects s1)" by blast
    with r1 have "(cs @ [c] = cs @ CreateFunction nm # [] \<or> cs @ [c] = cs @ CreateProcedure nm # [])
        \<and> run M m cs = Inr s1 \<and> v = length (objects s1)" by auto
    then show ?thesis by blast
  qed
qed


lemma rootEntered_run:
  "run 15 50 [CreateProgram (Some ''PROG''), EnterBlock (Some 5)] = Inr rootEntered"
  by code_simp


lemma scenario_run: "run 15 50 scenarioCalls = Inr inFunction"
  unfolding scenarioCalls_def by (rule inFunction_run)


text \<open>
  Claim C4, as amended. In every state a run of the driver reaches, the body scope of
  every Function or Procedure object exists, and following \<open>outer\<close> from it ends, after
  at most as many steps as there are scopes, at a scope whose outer link is absent. That
  scope is the body scope of its owner. The owner is a Program object (the scope is then
  that Program's root scope), or it is a Function or Procedure object constructed while
  \<open>currentScope\<close> was unset: one of the objects \<open>initSymTab\<close> creates, which leaves the
  cursor unset, or the object created by a constructor call of the run that was made in a
  state with an unset cursor.

  The chain is the one the constructors laid down: for every Function or Procedure
  constructor call of the run, the body scope of the object it created has, in every later
  state, that object as owner and, as outer link, the \<open>currentScope\<close> of the state in
  which the call was made; when that was a scope, the walk from the body scope ends where
  the walk from this enclosing scope ends.
\<close>

theorem outer_chain_reaches_root:
  "(run M m cs = Inr s \<and> w < length (objects s) \<and>
    (kind (objects s ! w) = OBJ_FUNCTION \<or> kind (objects s ! w) = OBJ_PROCEDURE) \<longrightarrow>
    (\<exists>c r v. bodyScope (objects s ! w) = Inr (Some c) \<and> c < length (scopes s) \<and>
       rootScope (length (scopes s)) (scopes s) c = Inr r \<and> r < length (scopes s) \<and>
       outer (scopes s ! r) = None \<and>
       owner (scopes s ! r) = Some v \<and> v < length (objects s) \<and>
       bodyScope (objects s ! v) = Inr (Some r) \<and>
       (kind (objects s ! v) = OBJ_PROGRAM \<or>
        (kind (objects s ! v) = OBJ_FUNCTION \<or> kind (objects s ! v) = OBJ_PROCEDURE) \<and>
        ((\<exists>s0. initSymTab M (startState m) = Inr s0 \<and> cursor s0 = Some None \<and>
             v < length (objects s0)) \<or>
         (\<exists>cs1 nm cs2 s1.
             (cs = cs1 @ CreateFunction nm # cs2 \<or> cs = cs1 @ CreateProcedure nm # cs2) \<and>
             run M m cs1 = Inr s1 \<and> cursor s1 = Some None \<and>
             v = length (objects s1)))))) \<and>
   (run M m cs = Inr s \<and>
    (cs = cs1 @ CreateFunction nm # cs2 \<or> cs = cs1 @ CreateProcedure nm # cs2) \<and>
    run M m cs1 = Inr s1 \<and> symbolTable s1 = Some st1 \<longrightarrow>
    length (objects s1) < length (objects s) \<and>
    (kind (objects s ! length (objects s1)) = OBJ_FUNCTION \<or>
     kind (objects s ! length (objects s1)) = OBJ_PROCEDURE) \<and>
    bodyScope (objects s ! length (objects s1)) = Inr (Some (length (scopes s1))) \<and>
    length (scopes s1) < length (scopes s) \<and>
    owner (scopes s ! length (scopes s1)) = Some (length (objects s1)) \<and>
    outer (scopes s ! length (scopes s1)) = currentScope st1 \<and>
    (\<forall>e. currentScope st1 = Some e \<longrightarrow>
       e < length (scopes s1) \<and>
       rootScope (length (scopes s)) (scopes s) (length (scopes s1)) =
         rootScope (length (scopes s)) (scopes s) e))"
proof (rule conjI; rule impI; elim conjE)
  assume run: "run M m cs = Inr s" and w: "w < length (objects s)"
    and k: "kind (objects s ! w) = OBJ_FUNCTION \<or> kind (objects s ! w) = OBJ_PROCEDURE"
  from run_scopeInv [OF run]
  have inv: "linksInv (scopeLinks s) (objectScopes s) (cursor s)"
    by (simp add: scopeInv_def)
  from linksInvD3 [OF inv, of w] w k obtain c
    where c: "c < length (scopes s)" "bodyScope (objects s ! w) = Inr (Some c)"
    by (auto simp: objectScopes_def scopeLinks_def)
  have ord: "\<And>c c'. c < length (scopes s) \<Longrightarrow> outer (scopes s ! c) = Some c' \<Longrightarrow> c' < c"
    using linksInvD1 [OF inv] by (simp add: scopeLinks_def)
  from rootScope_terminates [of "scopes s" c "length (scopes s)", OF ord c(1) c(1)]
  obtain r where r: "r \<le> c" "rootScope (length (scopes s)) (scopes s) c = Inr r"
    "outer (scopes s ! r) = None" by blast
  from r(1) c(1) have rl: "r < length (scopes s)" by simp
  from linksInvD2 [OF inv, of r] rl obtain v
    where v: "v < length (objects s)" "owner (scopes s ! r) = Some v"
      "bodyScope (objects s ! v) = Inr (Some r)"
    by (auto simp: objectScopes_def scopeLinks_def)
  have origin: "kind (objects s ! v) = OBJ_PROGRAM \<or>
        (kind (objects s ! v) = OBJ_FUNCTION \<or> kind (objects s ! v) = OBJ_PROCEDURE) \<and>
        ((\<exists>s0. initSymTab M (startState m) = Inr s0 \<and> cursor s0 = Some None \<and>
             v < length (objects s0)) \<or>
         (\<exists>cs1 nm cs2 s1.
             (cs = cs1 @ CreateFunction nm # cs2 \<or> cs = cs1 @ CreateProcedure nm # cs2) \<and>
             run M m cs1 = Inr s1 \<and> cursor s1 = Some None \<and>
             v = length (objects s1)))"
  proof (cases "kind (objects s ! v) = OBJ_PROGRAM")
    case True
    then show ?thesis by simp
  next
    case False
    with bodyScope_kind [OF v(3)]
    have fp: "kind (objects s ! v) = OBJ_FUNCTION \<or> kind (objects s ! v) = OBJ_PROCEDURE"
      by simp
    from created_by [OF run v(1) fp]
    have "(\<exists>s0. initSymTab M (startState m) = Inr s0 \<and> cursor s0 = Some None \<and>
             v < length (objects s0)) \<or>
         (\<exists>cs1 nm cs2 s1.
             (cs = cs1 @ CreateFunction nm # cs2 \<or> cs = cs1 @ CreateProcedure nm # cs2) \<and>
             run M m cs1 = Inr s1 \<and> cursor s1 = Some None \<and>
             v = length (objects s1))"
    proof (elim disjE exE conjE)
      fix s0 assume i: "initSymTab M (startState m) = Inr s0" and l: "v < length (objects s0)"
      from initSymTab_freshTable [OF scopeInv_startState i] have "cursor s0 = Some None"
        by (simp add: freshTable_def)
      with i l show ?thesis by blast
    next
      fix cs1 nm cs2 s1
      assume e: "cs = cs1 @ CreateFunction nm # cs2" and r1: "run M m cs1 = Inr s1"
        and ve: "v = length (objects s1)"
      from run e have run': "run M m (cs1 @ CreateFunction nm # cs2) = Inr s" by simp
      from run_split [OF run'] r1 obtain s2 where "step M (CreateFunction nm) s1 = Inr s2"
        by auto
      from step_creates_scope [OF this] obtain st1 where st: "symbolTable s1 = Some st1"
        by blast
      from created_scope [OF run' _ r1 st, of nm] v(3) ve r(3)
      have "currentScope st1 = None" by auto
      with st have "cursor s1 = Some None" by (simp add: cursor_def)
      with e r1 ve show ?thesis by blast
    next
      fix cs1 nm cs2 s1
      assume e: "cs = cs1 @ CreateProcedure nm # cs2" and r1: "run M m cs1 = Inr s1"
        and ve: "v = length (objects s1)"
      from run e have run': "run M m (cs1 @ CreateProcedure nm # cs2) = Inr s" by simp
      from run_split [OF run'] r1 obtain s2 where "step M (CreateProcedure nm) s1 = Inr s2"
        by auto
      from step_creates_scope [OF this] obtain st1 where st: "symbolTable s1 = Some st1"
        by blast
      from created_scope [OF run' _ r1 st, of nm] v(3) ve r(3)
      have "currentScope st1 = None" by auto
      with st have "cursor s1 = Some None" by (simp add: cursor_def)
      with e r1 ve show ?thesis by blast
    qed
    with fp show ?thesis by blast
  qed
  from c r rl v origin
  show "\<exists>c r v. bodyScope (objects s ! w) = Inr (Some c) \<and> c < length (scopes s) \<and>
       rootScope (length (scopes s)) (scopes s) c = Inr r \<and> r < length (scopes s) \<and>
       outer (scopes s ! r) = None \<and>
       owner (scopes s ! r) = Some v \<and> v < length (objects s) \<and>
       bodyScope (objects s ! v) = Inr (Some r) \<and>
       (kind (objects s ! v) = OBJ_PROGRAM \<or>
        (kind (objects s ! v) = OBJ_FUNCTION \<or> kind (objects s ! v) = OBJ_PROCEDURE) \<and>
        ((\<exists>s0. initSymTab M (startState m) = Inr s0 \<and> cursor s0 = Some None \<and>
             v < length (objects s0)) \<or>
         (\<exists>cs1 nm cs2 s1.
             (cs = cs1 @ CreateFunction nm # cs2 \<or> cs = cs1 @ CreateProcedure nm # cs2) \<and>
             run M m cs1 = Inr s1 \<and> cursor s1 = Some None \<and>
             v = length (objects s1))))"
    by blast
next
  assume run: "run M m cs = Inr s"
    and e: "cs = cs1 @ CreateFunction nm # cs2 \<or> cs = cs1 @ CreateProcedure nm # cs2"
    and r1: "run M m cs1 = Inr s1" and st: "symbolTable s1 = Some st1"
  from e obtain c where c: "c = CreateFunction nm \<or> c = CreateProcedure nm"
    and cs: "cs = cs1 @ c # cs2" by blast
  from run cs have run': "run M m (cs1 @ c # cs2) = Inr s" by simp
  note cr = created_scope [OF run' c r1 st]
  from run_scopeInv [OF run]
  have inv: "linksInv (scopeLinks s) (objectScopes s) (cursor s)"
    by (simp add: scopeInv_def)
  have ord: "\<And>c c'. c < length (scopes s) \<Longrightarrow> outer (scopes s ! c) = Some c' \<Longrightarrow> c' < c"
    using linksInvD1 [OF inv] by (simp add: scopeLinks_def)
  have "\<forall>e. currentScope st1 = Some e \<longrightarrow>
       e < length (scopes s1) \<and>
       rootScope (length (scopes s)) (scopes s) (length (scopes s1)) =
         rootScope (length (scopes s)) (scopes s) e"
  proof (intro allI impI)
    fix e assume "currentScope st1 = Some e"
    with cr have o: "outer (scopes s ! length (scopes s1)) = Some e"
      and l: "length (scopes s1) < length (scopes s)" by simp_all
    from ord [OF l o] rootScope_through_outer [of "scopes s", OF ord l o]
    show "e < length (scopes s1) \<and>
       rootScope (length (scopes s)) (scopes s) (length (scopes s1)) =
         rootScope (length (scopes s)) (scopes s) e" by simp
  qed
  with cr show "length (objects s1) < length (objects s) \<and>
    (kind (objects s ! length (objects s1)) = OBJ_FUNCTION \<or>
     kind (objects s ! length (objects s1)) = OBJ_PROCEDURE) \<and>
    bodyScope (objects s ! length (objects s1)) = Inr (Some (length (scopes s1))) \<and>
    length (scopes s1) < length (scopes s) \<and>
    owner (scopes s ! length (scopes s1)) = Some (length (objects s1)) \<and>
    outer (scopes s ! length (scopes s1)) = currentScope st1 \<and>
    (\<forall>e. currentScope st1 = Some e \<longrightarrow>
       e < length (scopes s1) \<and>
       rootScope (length (scopes s)) (scopes s) (length (scopes s1)) =
         rootScope (length (scopes s)) (scopes s) e)"
    by blast
qed



theorem outer_chain_reaches_root_witness:
  "(run 15 50 scenarioCalls = Inr inFunction \<and> 8 < length (objects inFunction) \<and>
    kind (objects inFunction ! 8) = OBJ_FUNCTION) \<and>
   (\<exists>c r v. bodyScope (objects inFunction ! 8) = Inr (Some c) \<and>
      c < length (scopes inFunction) \<and>
      rootScope (length (scopes inFunction)) (scopes inFunction) c = Inr r \<and>
      r < length (scopes inFunction) \<and> outer (scopes inFunction ! r) = None \<and>
      owner (scopes inFunction ! r) = Some v \<and> v < length (objects inFunction) \<and>
      bodyScope (objects inFunction ! v) = Inr (Some r) \<and>
      (kind (objects inFunction ! v) = OBJ_PROGRAM \<or>
       (kind (objects inFunction ! v) = OBJ_FUNCTION \<or>
        kind (objects inFunction ! v) = OBJ_PROCEDURE) \<and>
       ((\<exists>s0. initSymTab 15 (startState 50) = Inr s0 \<and> cursor s0 = Some None \<and>
            v < length (objects s0)) \<or>
        (\<exists>cs1 nm cs2 s1.
            (scenarioCalls = cs1 @ CreateFunction nm # cs2 \<or>
             scenarioCalls = cs1 @ CreateProcedure nm # cs2) \<and>
            run 15 50 cs1 = Inr s1 \<and> cursor s1 = Some None \<and>
            v = length (objects s1))))) \<and>
   (scenarioCalls =
      [CreateProgram (Some ''PROG''), EnterBlock (Some 5)] @ CreateFunction (Some ''F'') #
      [EnterBlock (Some 6), CreateParameter (Some ''x'') PARAM_VALUE (Some 8),
       DeclareObject (Some 9), CreateVariable (Some ''v''), DeclareObject (Some 10),
       CreateParameter (Some ''y'') PARAM_REFERENCE (Some 8), CreateVariable (Some ''w'')] \<and>
    run 15 50 [CreateProgram (Some ''PROG''), EnterBlock (Some 5)] = Inr rootEntered \<and>
    symbolTable rootEntered =
      Some \<lparr>program = Some 7, currentScope = Some 5, globalObjectList = Some 0\<rparr>) \<and>
   (length (objects rootEntered) = 8 \<and> length (scopes rootEntered) = 6 \<and>
    kind (objects inFunction ! 8) = OBJ_FUNCTION \<and>
    bodyScope (objects inFunction ! 8) = Inr (Some 6) \<and>
    owner (scopes inFunction ! 6) = Some 8 \<and> outer (scopes inFunction ! 6) = Some 5 \<and>
    rootScope (length (scopes inFunction)) (scopes inFunction) 6 =
      rootScope (length (scopes inFunction)) (scopes inFunction) 5)"
proof -
  let ?st = "\<lparr>program = Some 7, currentScope = Some 5, globalObjectList = Some 0\<rparr>"
  let ?cs1 = "[CreateProgram (Some ''PROG''), EnterBlock (Some 5)]"
  let ?cs2 = "[EnterBlock (Some 6), CreateParameter (Some ''x'') PARAM_VALUE (Some 8),
       DeclareObject (Some 9), CreateVariable (Some ''v''), DeclareObject (Some 10),
       CreateParameter (Some ''y'') PARAM_REFERENCE (Some 8), CreateVariable (Some ''w'')]"
  have k: "8 < length (objects inFunction)" "kind (objects inFunction ! 8) = OBJ_FUNCTION"
    by (simp_all add: inFunction_def builtinObjects_def)
  have e: "scenarioCalls = ?cs1 @ CreateFunction (Some ''F'') # ?cs2"
    by (simp add: scenarioCalls_def)
  have st: "symbolTable rootEntered = Some ?st" "currentScope ?st = Some 5"
    and l: "length (objects rootEntered) = 8" "length (scopes rootEntered) = 6"
    by (simp_all add: rootEntered_def builtinObjects_def builtinScopes_def)
  note T = outer_chain_reaches_root [where M = 15 and m = 50 and cs = scenarioCalls
      and s = inFunction and w = 8 and ?cs1.0 = ?cs1 and nm = "Some ''F''" and ?cs2.0 = ?cs2
      and ?s1.0 = rootEntered and ?st1.0 = ?st]
  from T scenario_run k have A: "\<exists>c r v. bodyScope (objects inFunction ! 8) = Inr (Some c) \<and>
      c < length (scopes inFunction) \<and>
      rootScope (length (scopes inFunction)) (scopes inFunction) c = Inr r \<and>
      r < length (scopes inFunction) \<and> outer (scopes inFunction ! r) = None \<and>
      owner (scopes inFunction ! r) = Some v \<and> v < length (objects inFunction) \<and>
      bodyScope (objects inFunction ! v) = Inr (Some r) \<and>
      (kind (objects inFunction ! v) = OBJ_PROGRAM \<or>
       (kind (objects inFunction ! v) = OBJ_FUNCTION \<or>
        kind (objects inFunction ! v) = OBJ_PROCEDURE) \<and>
       ((\<exists>s0. initSymTab 15 (startState 50) = Inr s0 \<and> cursor s0 = Some None \<and>
            v < length (objects s0)) \<or>
        (\<exists>cs1 nm cs2 s1.
            (scenarioCalls = cs1 @ CreateFunction nm # cs2 \<or>
             scenarioCalls = cs1 @ CreateProcedure nm # cs2) \<and>
            run 15 50 cs1 = Inr s1 \<and> cursor s1 = Some None \<and>
            v = length (objects s1))))"
    by blast
  from T scenario_run e rootEntered_run st(1)
  have B: "bodyScope (objects inFunction ! length (objects rootEntered)) =
        Inr (Some (length (scopes rootEntered))) \<and>
      owner (scopes inFunction ! length (scopes rootEntered)) =
        Some (length (objects rootEntered)) \<and>
      outer (scopes inFunction ! length (scopes rootEntered)) = currentScope ?st \<and>
      (\<forall>e. currentScope ?st = Some e \<longrightarrow>
         e < length (scopes rootEntered) \<and>
         rootScope (length (scopes inFunction)) (scopes inFunction) (length (scopes rootEntered)) =
           rootScope (length (scopes inFunction)) (scopes inFunction) e)"
    by blast
  then have C: "bodyScope (objects inFunction ! 8) = Inr (Some 6) \<and>
    owner (scopes inFunction ! 6) = Some 8 \<and> outer (scopes inFunction ! 6) = Some 5 \<and>
    rootScope (length (scopes inFunction)) (scopes inFunction) 6 =
      rootScope (length (scopes inFunction)) (scopes inFunction) 5"
    unfolding l by simp
  from A C scenario_run k e rootEntered_run st l show ?thesis by blast
qed

text \<open>
  The claim as stated fails in the state right after \<open>initSymTab\<close>: the body scope of the
  built-in function \<open>READC\<close> has no outer scope, so the walk ends at once at a scope owned
  by \<open>READC\<close> itself, and no Program object exists. The built-ins keep these scopes in
  every later state.
\<close>

theorem builtin_scope_counterexample:
  "run 15 50 [] = Inr builtins \<and>
   kind (objects builtins ! 0) = OBJ_FUNCTION \<and>
   bodyScope (objects builtins ! 0) = Inr (Some 0) \<and>
   rootScope (length (scopes builtins)) (scopes builtins) 0 = Inr 0 \<and>
   outer (scopes builtins ! 0) = None \<and>
   owner (scopes builtins ! 0) = Some 0 \<and>
   symbolTable builtins =
     Some \<lparr>program = None, currentScope = None, globalObjectList = Some 0\<rparr> \<and>
   OBJ_PROGRAM \<notin> set (map kind (objects builtins))"
  by code_simp

subsection \<open>Linked lists in the node store\<close>

lemma chain_det: "chain N p as \<Longrightarrow> chain N p bs \<Longrightarrow> as = bs"
proof (induction as arbitrary: p bs)
  case Nil
  then show ?case by (cases bs) auto
next
  case (Cons a as)
  then show ?case by (cases bs) auto
qed

lemma chain_suffix: "chain N p (us @ a # vs) \<Longrightarrow> chain N (Some a) (a # vs)"
  by (induction us arbitrary: p) auto

lemma chain_distinct: "chain N p as \<Longrightarrow> distinct as"
proof (induction as arbitrary: p)
  case Nil
  then show ?case by simp
next
  case (Cons a as)
  have "a \<notin> set as"
  proof
    assume "a \<in> set as"
    then obtain us vs where e: "as = us @ a # vs" by (auto simp: in_set_conv_decomp)
    from Cons.prems have "chain N (node_next (N ! a)) (us @ a # vs)" by (simp add: e)
    then have "chain N (Some a) (a # vs)" by (rule chain_suffix)
    moreover from Cons.prems have "chain N (Some a) (a # as)" by simp
    ultimately have "a # as = a # vs" by (rule chain_det [rotated])
    with e show False by simp
  qed
  with Cons show ?case by auto
qed

lemma chain_bound: "chain N p as \<Longrightarrow> set as \<subseteq> {..<length N}"
  by (induction as arbitrary: p) auto

lemma chain_length: "chain N p as \<Longrightarrow> length as \<le> length N"
proof -
  assume c: "chain N p as"
  then have "distinct as" by (rule chain_distinct)
  then have "length as = card (set as)" by (simp add: distinct_card)
  also have "\<dots> \<le> card {..<length N}"
    using chain_bound [OF c] by (intro card_mono) auto
  finally show ?thesis by simp
qed

lemma chain_frame:
  "chain N p as \<Longrightarrow> length N \<le> length N' \<Longrightarrow>
   (\<And>a. a \<in> set as \<Longrightarrow> node_next (N' ! a) = node_next (N ! a)) \<Longrightarrow> chain N' p as"
  by (induction as arbitrary: p) auto

lemma objectsOf_frame:
  "(\<And>a. a \<in> set as \<Longrightarrow> node_object (N' ! a) = node_object (N ! a)) \<Longrightarrow>
   objectsOf N' as = objectsOf N as"
  by (simp add: objectsOf_def)

lemma lastNode_chain:
  "chain N (Some a) (a # as) \<Longrightarrow> length as < fuel \<Longrightarrow> lastNode fuel N a = Inr (last (a # as))"
proof (induction as arbitrary: a fuel)
  case Nil
  then obtain f where "fuel = Suc f" by (cases fuel) auto
  with Nil show ?case by (simp add: deref_def andThen_def)
next
  case (Cons b bs)
  then obtain f where f: "fuel = Suc f" by (cases fuel) auto
  from Cons.prems have n: "a < length N" "node_next (N ! a) = Some b" "chain N (Some b) (b # bs)"
    by auto
  from Cons.IH [OF n(3), of f] Cons.prems f have "lastNode f N b = Inr (last (b # bs))" by simp
  with n f show ?case by (simp add: deref_def andThen_def)
qed

lemma chain_snoc:
  "chain N p as \<Longrightarrow> distinct as \<Longrightarrow> as \<noteq> [] \<Longrightarrow> node_next x = None \<Longrightarrow>
   chain ((N @ [x])[last as := ((N @ [x]) ! last as)\<lparr>node_next := Some (length N)\<rparr>]) p
     (as @ [length N])"
proof (induction as arbitrary: p)
  case Nil
  then show ?case by simp
next
  case (Cons a as)
  from Cons.prems have a: "p = Some a" "a < length N" "chain N (node_next (N ! a)) as" by auto
  show ?case
  proof (cases "as = []")
    case True
    with Cons.prems a show ?thesis by (simp add: nth_append)
  next
    case False
    with Cons.prems have ne: "last as \<noteq> a" by auto
    from Cons.IH [OF a(3)] Cons.prems False
    have "chain ((N @ [x])[last as := ((N @ [x]) ! last as)\<lparr>node_next := Some (length N)\<rparr>])
        (node_next (N ! a)) (as @ [length N])" by simp
    with a False ne show ?thesis by (simp add: nth_append)
  qed
qed

text \<open>
  The fuel \<open>addObject\<close> supplies is enough: a walk that returns with any amount of fuel
  returns the same node with \<open>length N + 1\<close>.
\<close>

lemma lastNode_Inr_chain:
  "lastNode fuel N a = Inr r \<Longrightarrow> \<exists>as. chain N (Some a) (a # as) \<and> last (a # as) = r"
proof (induction fuel arbitrary: a)
  case 0
  then show ?case by simp
next
  case (Suc fuel)
  from Suc.prems have al: "a < length N"
    by (auto simp: andThen_eq_Inr deref_Inr)
  show ?case
  proof (cases "node_next (N ! a)")
    case None
    with Suc.prems al have "r = a" by (simp add: deref_def andThen_def)
    with None al have "chain N (Some a) (a # []) \<and> last (a # []) = r" by simp
    then show ?thesis by blast
  next
    case (Some nx)
    with Suc.prems al have "lastNode fuel N nx = Inr r" by (simp add: deref_def andThen_def)
    from Suc.IH [OF this] obtain bs
      where "chain N (Some nx) (nx # bs)" "last (nx # bs) = r" by blast
    with Some al have "chain N (Some a) (a # nx # bs) \<and> last (a # nx # bs) = r" by simp
    then show ?thesis by blast
  qed
qed

lemma lastNode_fuel_enough:
  assumes "lastNode fuel N a = Inr r"
  shows "lastNode (length N + 1) N a = Inr r"
proof -
  from lastNode_Inr_chain [OF assms] obtain as
    where c: "chain N (Some a) (a # as)" and l: "last (a # as) = r" by blast
  from chain_length [OF c] have "length as < length N + 1" by simp
  from lastNode_chain [OF c this] l show ?thesis by simp
qed

lemma listAt_push: "listAt N p as xs \<Longrightarrow> listAt (N @ [x]) p as xs"
proof -
  assume l: "listAt N p as xs"
  then have c: "chain N p as" by (simp add: listAt_def)
  have b: "\<And>a. a \<in> set as \<Longrightarrow> (N @ [x]) ! a = N ! a"
    using chain_bound [OF c] by (auto simp: nth_append)
  from c have "chain (N @ [x]) p as" by (rule chain_frame) (simp_all add: b)
  moreover have "objectsOf (N @ [x]) as = objectsOf N as"
    by (rule objectsOf_frame) (simp add: b)
  ultimately show ?thesis using l by (simp add: listAt_def)
qed

lemma listAt_update: "listAt N p as xs \<Longrightarrow> a \<notin> set as \<Longrightarrow> listAt (N[a := y]) p as xs"
proof -
  assume l: "listAt N p as xs" and a: "a \<notin> set as"
  then have c: "chain N p as" by (simp add: listAt_def)
  have b: "\<And>b. b \<in> set as \<Longrightarrow> (N[a := y]) ! b = N ! b"
    using a by (metis nth_list_update_neq)
  from c have "chain (N[a := y]) p as" by (rule chain_frame) (simp_all add: b)
  moreover have "objectsOf (N[a := y]) as = objectsOf N as"
    by (rule objectsOf_frame) (simp add: b)
  ultimately show ?thesis using l by (simp add: listAt_def)
qed

lemma listAt_new:
  "node_next x = None \<Longrightarrow> listAt (N @ [x]) (Some (length N)) [length N] [node_object x]"
  by (simp add: listAt_def objectsOf_def)

lemma listAt_Nil: "listAt N p [] xs = (p = None \<and> xs = [])"
  by (auto simp: listAt_def objectsOf_def)

lemma listAt_snoc:
  assumes l: "listAt N p as xs" and ne: "as \<noteq> []" and x: "node_next x = None"
  shows "listAt ((N @ [x])[last as := ((N @ [x]) ! last as)\<lparr>node_next := Some (length N)\<rparr>]) p
     (as @ [length N]) (xs @ [node_object x])"
proof -
  let ?N = "(N @ [x])[last as := ((N @ [x]) ! last as)\<lparr>node_next := Some (length N)\<rparr>]"
  from l have c: "chain N p as" and o: "objectsOf N as = xs" by (simp_all add: listAt_def)
  from c have d: "distinct as" by (rule chain_distinct)
  from chain_snoc [OF c d ne x] have c': "chain ?N p (as @ [length N])" .
  have lt: "\<And>a. a \<in> set as \<Longrightarrow> a < length N" using chain_bound [OF c] by auto
  from ne lt have ll: "last as < length N" by simp
  have "\<And>a. a \<in> set as \<Longrightarrow> node_object (?N ! a) = node_object (N ! a)"
    using lt by (auto simp: nth_list_update nth_append)
  then have "objectsOf ?N as = objectsOf N as" by (rule objectsOf_frame)
  moreover have "node_object (?N ! length N) = node_object x"
    using ll by (simp add: nth_list_update)
  moreover have "objectsOf ?N (as @ [length N]) =
      objectsOf ?N as @ [node_object (?N ! length N)]"
    by (simp add: objectsOf_def)
  ultimately have "objectsOf ?N (as @ [length N]) = xs @ [node_object x]"
    using o by simp
  with c' show ?thesis by (simp add: listAt_def)
qed

lemma listAt_snoc_frame:
  assumes l: "listAt N p bs ys" and d: "a \<notin> set bs"
  shows "listAt ((N @ [x])[a := y]) p bs ys"
  by (rule listAt_update [OF listAt_push [OF l] d])

lemma addObject_unfold:
  assumes m: "0 < memory s"
  shows "addObject l obj s =
     andThen (readRef l s) (\<lambda>h.
       (case h of
          None \<Rightarrow> writeRef l (Some (length (nodes s))) (pushNode obj s)
        | Some first \<Rightarrow>
            andThen (lastNode (length (nodes (pushNode obj s)) + 1)
                       (nodes (pushNode obj s)) first) (\<lambda>current.
              Inr ((pushNode obj s)\<lparr>nodes := (nodes (pushNode obj s))
                     [current := (nodes (pushNode obj s) ! current)
                        \<lparr>node_next := Some (length (nodes s))\<rparr>]\<rparr>))))"
proof -
  have a: "allocateMemory s = Inr (s\<lparr>memory := memory s - 1\<rparr>)"
    using m by (simp add: allocateMemory_def malloc_def)
  have p: "(s\<lparr>memory := memory s - 1\<rparr>)
             \<lparr>nodes := nodes (s\<lparr>memory := memory s - 1\<rparr>) @
                [\<lparr>node_object = obj, node_next = None\<rparr>]\<rparr> = pushNode obj s"
    by (simp add: pushNode_def)
  have l: "length (nodes (s\<lparr>memory := memory s - 1\<rparr>)) = length (nodes s)"
    by simp
  show ?thesis
    unfolding addObject_def a andThen_Inr Let_def p l readRef_pushNode ..
qed

lemma nodes_pushNode:
  "nodes (pushNode obj s) = nodes s @ [\<lparr>node_object = obj, node_next = None\<rparr>]"
  by (simp add: pushNode_def)

lemma addObject_nonempty:
  assumes m: "0 < memory s" and r: "readRef l s = Inr h"
    and c: "chain (nodes s) h as" and ne: "as \<noteq> []"
  shows "addObject l obj s =
     Inr ((pushNode obj s)\<lparr>nodes := (nodes s @ [\<lparr>node_object = obj, node_next = None\<rparr>])
            [last as := ((nodes s @ [\<lparr>node_object = obj, node_next = None\<rparr>]) ! last as)
               \<lparr>node_next := Some (length (nodes s))\<rparr>]\<rparr>)"
proof -
  from ne obtain a bs where as: "as = a # bs" by (cases as) auto
  with c have h: "h = Some a" by simp
  have "chain (nodes (pushNode obj s)) (Some a) (a # bs)"
    using listAt_push [of "nodes s" h as "objectsOf (nodes s) as"] c as h
    by (simp add: listAt_def nodes_pushNode)
  moreover have "length bs < length (nodes (pushNode obj s)) + 1"
    using chain_length [OF c] as by (simp add: nodes_pushNode)
  ultimately have "lastNode (length (nodes (pushNode obj s)) + 1) (nodes (pushNode obj s)) a =
      Inr (last (a # bs))"
    by (rule lastNode_chain)
  then show ?thesis
    unfolding addObject_unfold [OF m] r andThen_Inr h option.case as
    by (simp add: andThen_Inr nodes_pushNode del: lastNode.simps)
qed

lemma addObject_empty:
  assumes m: "0 < memory s" and r: "readRef l s = Inr None"
  shows "addObject l obj s = writeRef l (Some (length (nodes s))) (pushNode obj s)"
  unfolding addObject_unfold [OF m] r andThen_Inr by simp

subsection \<open>Declaration routing\<close>

lemma scopes_pushNode: "scopes (pushNode obj s) = scopes s"
  and objects_pushNode: "objects (pushNode obj s) = objects s"
  by (simp_all add: pushNode_def)

lemma declareObject_nonparam:
  assumes st: "symbolTable s = Some st" and c: "currentScope st = Some c"
    and cl: "c < length (scopes s)" and ol: "ob < length (objects s)" and m: "0 < memory s"
    and k: "kind (objects s ! ob) \<noteq> OBJ_PARAMETER"
    and l: "listAt (nodes s) (objList (scopes s ! c)) bs ys"
  shows "\<exists>s'. declareObject (Some ob) s = Inr s' \<and>
      listAt (nodes s') (objList (scopes s' ! c)) (bs @ [length (nodes s)]) (ys @ [Some ob]) \<and>
      objects s' = objects s \<and>
      (\<forall>p as xs. listAt (nodes s) p as xs \<and> set as \<inter> set bs = {} \<longrightarrow>
         listAt (nodes s') p as xs)"
proof -
  let ?x = "\<lparr>node_object = Some ob, node_next = None\<rparr>"
  have d: "declareObject (Some ob) s = addObject (ObjListOf (Some c)) (Some ob) s"
    using st c ol k by (simp add: declareObject_def theSymTab_def andThen_def deref_def)
  have r: "readRef (ObjListOf (Some c)) s = Inr (objList (scopes s ! c))"
    using cl by (simp add: deref_def andThen_def)
  show ?thesis
  proof (cases "bs = []")
    case True
    with l have h: "objList (scopes s ! c) = None" "ys = []" by (simp_all add: listAt_Nil)
    let ?s' = "(pushNode (Some ob) s)\<lparr>scopes := (scopes s)
        [c := (scopes s ! c)\<lparr>objList := Some (length (nodes s))\<rparr>]\<rparr>"
    have "addObject (ObjListOf (Some c)) (Some ob) s = Inr ?s'"
      using addObject_empty [OF m, of "ObjListOf (Some c)" "Some ob"] r h cl
      by (simp add: deref_def andThen_def scopes_pushNode)
    moreover have "listAt (nodes ?s') (objList (scopes ?s' ! c)) ([] @ [length (nodes s)])
        ([] @ [Some ob])"
      using cl listAt_new [of ?x "nodes s"] by (simp add: nodes_pushNode)
    moreover have "objects ?s' = objects s" by (simp add: objects_pushNode)
    moreover have "\<forall>p as xs. listAt (nodes s) p as xs \<and> set as \<inter> set bs = {} \<longrightarrow>
         listAt (nodes ?s') p as xs"
      by (simp add: nodes_pushNode listAt_push)
    ultimately show ?thesis using d True h by auto
  next
    case False
    let ?s' = "(pushNode (Some ob) s)\<lparr>nodes := (nodes s @ [?x])
            [last bs := ((nodes s @ [?x]) ! last bs)\<lparr>node_next := Some (length (nodes s))\<rparr>]\<rparr>"
    from l have ch: "chain (nodes s) (objList (scopes s ! c)) bs" by (simp add: listAt_def)
    have "addObject (ObjListOf (Some c)) (Some ob) s = Inr ?s'"
      by (rule addObject_nonempty [OF m r ch False])
    moreover have "listAt (nodes ?s') (objList (scopes ?s' ! c)) (bs @ [length (nodes s)])
        (ys @ [Some ob])"
      using listAt_snoc [OF l False, of ?x] by (simp add: scopes_pushNode)
    moreover have "objects ?s' = objects s" by (simp add: objects_pushNode)
    moreover have "\<forall>p as xs. listAt (nodes s) p as xs \<and> set as \<inter> set bs = {} \<longrightarrow>
         listAt (nodes ?s') p as xs"
    proof (intro allI impI, elim conjE)
      fix p as xs assume a: "listAt (nodes s) p as xs" and dj: "set as \<inter> set bs = {}"
      from False dj have "last bs \<notin> set as" by (meson disjoint_iff last_in_set)
      from listAt_snoc_frame [OF a this] show "listAt (nodes ?s') p as xs" by simp
    qed
    ultimately show ?thesis using d by auto
  qed
qed


lemma declareObject_param_function:
  assumes st: "symbolTable s = Some st" and c: "currentScope st = Some c"
    and cl: "c < length (scopes s)" and ol: "ob < length (objects s)" and m: "0 < memory s"
    and k: "kind (objects s ! ob) = OBJ_PARAMETER"
    and w: "owner (scopes s ! c) = Some w" and wl: "w < length (objects s)"
    and kw: "kind (objects s ! w) = OBJ_FUNCTION"
    and aw: "attrs (objects s ! w) = FuncAttrs pl rt sc"
    and l: "listAt (nodes s) pl as xs"
    and b: "listAt (nodes s) (objList (scopes s ! c)) bs ys"
    and dj: "set as \<inter> set bs = {}"
  shows "\<exists>s' pl'. declareObject (Some ob) s = Inr s' \<and>
      paramList (objects s' ! w) = Inr pl' \<and>
      listAt (nodes s') pl' (as @ [length (nodes s)]) (xs @ [Some ob]) \<and>
      scopes s' = scopes s \<and>
      listAt (nodes s') (objList (scopes s' ! c)) bs ys"
proof -
  let ?x = "\<lparr>node_object = Some ob, node_next = None\<rparr>"
  have d: "declareObject (Some ob) s = addObject (FuncParamListOf (Some w)) (Some ob) s"
    using st c cl ol k w wl kw aw
    by (simp add: declareObject_def theSymTab_def andThen_def deref_def)
  have r: "readRef (FuncParamListOf (Some w)) s = Inr pl"
    using wl aw by (simp add: deref_def andThen_def)
  show ?thesis
  proof (cases "as = []")
    case True
    with l have h: "pl = None" "xs = []" by (simp_all add: listAt_Nil)
    let ?s' = "setAttrs w (FuncAttrs (Some (length (nodes s))) rt sc) (pushNode (Some ob) s)"
    have "addObject (FuncParamListOf (Some w)) (Some ob) s = Inr ?s'"
      using addObject_empty [OF m, of "FuncParamListOf (Some w)" "Some ob"] r h wl aw
      by (simp add: deref_def andThen_def objects_pushNode)
    moreover have "paramList (objects ?s' ! w) = Inr (Some (length (nodes s)))"
      using wl kw by (simp add: setAttrs_def objects_pushNode paramList_def)
    moreover have "listAt (nodes ?s') (Some (length (nodes s))) ([] @ [length (nodes s)])
        ([] @ [Some ob])"
      using listAt_new [of ?x "nodes s"] by (simp add: setAttrs_def nodes_pushNode)
    moreover have "scopes ?s' = scopes s" by (simp add: setAttrs_def scopes_pushNode)
    moreover have "listAt (nodes ?s') (objList (scopes ?s' ! c)) bs ys"
      using listAt_push [OF b, of ?x] by (simp add: setAttrs_def nodes_pushNode scopes_pushNode)
    ultimately show ?thesis using d True h by auto
  next
    case False
    let ?s' = "(pushNode (Some ob) s)\<lparr>nodes := (nodes s @ [?x])
            [last as := ((nodes s @ [?x]) ! last as)\<lparr>node_next := Some (length (nodes s))\<rparr>]\<rparr>"
    from l have ch: "chain (nodes s) pl as" by (simp add: listAt_def)
    have "addObject (FuncParamListOf (Some w)) (Some ob) s = Inr ?s'"
      by (rule addObject_nonempty [OF m r ch False])
    moreover have "paramList (objects ?s' ! w) = Inr pl"
      using kw aw by (simp add: objects_pushNode paramList_def)
    moreover have "listAt (nodes ?s') pl (as @ [length (nodes s)]) (xs @ [Some ob])"
      using listAt_snoc [OF l False, of ?x] by simp
    moreover have "scopes ?s' = scopes s" by (simp add: scopes_pushNode)
    moreover have "listAt (nodes ?s') (objList (scopes ?s' ! c)) bs ys"
    proof -
      from False dj have "last as \<notin> set bs" by (meson disjoint_iff last_in_set)
      from listAt_snoc_frame [OF b this] show ?thesis by (simp add: scopes_pushNode)
    qed
    ultimately show ?thesis using d by auto
  qed
qed

lemma declareObject_param_procedure:
  assumes st: "symbolTable s = Some st" and c: "currentScope st = Some c"
    and cl: "c < length (scopes s)" and ol: "ob < length (objects s)" and m: "0 < memory s"
    and k: "kind (objects s ! ob) = OBJ_PARAMETER"
    and w: "owner (scopes s ! c) = Some w" and wl: "w < length (objects s)"
    and kw: "kind (objects s ! w) = OBJ_PROCEDURE"
    and aw: "attrs (objects s ! w) = ProcAttrs pl sc"
    and l: "listAt (nodes s) pl as xs"
    and b: "listAt (nodes s) (objList (scopes s ! c)) bs ys"
    and dj: "set as \<inter> set bs = {}"
  shows "\<exists>s' pl'. declareObject (Some ob) s = Inr s' \<and>
      paramList (objects s' ! w) = Inr pl' \<and>
      listAt (nodes s') pl' (as @ [length (nodes s)]) (xs @ [Some ob]) \<and>
      scopes s' = scopes s \<and>
      listAt (nodes s') (objList (scopes s' ! c)) bs ys"
proof -
  let ?x = "\<lparr>node_object = Some ob, node_next = None\<rparr>"
  have d: "declareObject (Some ob) s = addObject (ProcParamListOf (Some w)) (Some ob) s"
    using st c cl ol k w wl kw aw
    by (simp add: declareObject_def theSymTab_def andThen_def deref_def)
  have r: "readRef (ProcParamListOf (Some w)) s = Inr pl"
    using wl aw by (simp add: deref_def andThen_def)
  show ?thesis
  proof (cases "as = []")
    case True
    with l have h: "pl = None" "xs = []" by (simp_all add: listAt_Nil)
    let ?s' = "setAttrs w (ProcAttrs (Some (length (nodes s))) sc) (pushNode (Some ob) s)"
    have "addObject (ProcParamListOf (Some w)) (Some ob) s = Inr ?s'"
      using addObject_empty [OF m, of "ProcParamListOf (Some w)" "Some ob"] r h wl aw
      by (simp add: deref_def andThen_def objects_pushNode)
    moreover have "paramList (objects ?s' ! w) = Inr (Some (length (nodes s)))"
      using wl kw by (simp add: setAttrs_def objects_pushNode paramList_def)
    moreover have "listAt (nodes ?s') (Some (length (nodes s))) ([] @ [length (nodes s)])
        ([] @ [Some ob])"
      using listAt_new [of ?x "nodes s"] by (simp add: setAttrs_def nodes_pushNode)
    moreover have "scopes ?s' = scopes s" by (simp add: setAttrs_def scopes_pushNode)
    moreover have "listAt (nodes ?s') (objList (scopes ?s' ! c)) bs ys"
      using listAt_push [OF b, of ?x] by (simp add: setAttrs_def nodes_pushNode scopes_pushNode)
    ultimately show ?thesis using d True h by auto
  next
    case False
    let ?s' = "(pushNode (Some ob) s)\<lparr>nodes := (nodes s @ [?x])
            [last as := ((nodes s @ [?x]) ! last as)\<lparr>node_next := Some (length (nodes s))\<rparr>]\<rparr>"
    from l have ch: "chain (nodes s) pl as" by (simp add: listAt_def)
    have "addObject (ProcParamListOf (Some w)) (Some ob) s = Inr ?s'"
      by (rule addObject_nonempty [OF m r ch False])
    moreover have "paramList (objects ?s' ! w) = Inr pl"
      using kw aw by (simp add: objects_pushNode paramList_def)
    moreover have "listAt (nodes ?s') pl (as @ [length (nodes s)]) (xs @ [Some ob])"
      using listAt_snoc [OF l False, of ?x] by simp
    moreover have "scopes ?s' = scopes s" by (simp add: scopes_pushNode)
    moreover have "listAt (nodes ?s') (objList (scopes ?s' ! c)) bs ys"
    proof -
      from False dj have "last as \<notin> set bs" by (meson disjoint_iff last_in_set)
      from listAt_snoc_frame [OF b this] show ?thesis by (simp add: scopes_pushNode)
    qed
    ultimately show ?thesis using d by auto
  qed
qed

lemma declareObject_param_other:
  assumes st: "symbolTable s = Some st" and c: "currentScope st = Some c"
    and cl: "c < length (scopes s)" and ol: "ob < length (objects s)"
    and k: "kind (objects s ! ob) = OBJ_PARAMETER"
    and w: "owner (scopes s ! c) = Some w" and wl: "w < length (objects s)"
    and kw: "kind (objects s ! w) \<noteq> OBJ_FUNCTION" "kind (objects s ! w) \<noteq> OBJ_PROCEDURE"
  shows "declareObject (Some ob) s = Inr s"
  using assms
  by (cases "kind (objects s ! w)")
    (simp_all add: declareObject_def theSymTab_def andThen_def deref_def)

lemma paramList_Inr:
  "(paramList x = Inr pl) =
     ((kind x = OBJ_FUNCTION \<and> (\<exists>rt sc. attrs x = FuncAttrs pl rt sc)) \<or>
      (kind x = OBJ_PROCEDURE \<and> (\<exists>sc. attrs x = ProcAttrs pl sc)))"
  by (cases "kind x"; cases "attrs x") (auto simp: paramList_def)


text \<open>
  Claim C1, as amended. Let \<open>currentScope\<close> be set to an existing scope whose local
  declaration list is a well-formed list, let the object exist and memory for one node be
  available. If the object is not a Parameter, \<open>declareObject\<close> appends it at the end of
  the local declaration list (the earlier entries keep their order), changes no object, and
  leaves every list that shares no node with the local list as it was, the owner's
  parameter list among them. If the object is a Parameter and the owner of the scope is a
  Function or Procedure whose parameter list is well formed and shares no node with the
  local list, \<open>declareObject\<close> appends it at the end of that parameter list, changes no
  scope, and leaves the local declaration list as it was. If the object is a Parameter and
  the owner is of any other kind, \<open>declareObject\<close> changes nothing.
\<close>

theorem declareObject_routing:
  assumes "symbolTable s = Some st" and "currentScope st = Some c"
    and "c < length (scopes s)" and "ob < length (objects s)" and "0 < memory s"
    and "listAt (nodes s) (objList (scopes s ! c)) bs ys"
  shows
    "(kind (objects s ! ob) \<noteq> OBJ_PARAMETER \<longrightarrow>
        (\<exists>s'. declareObject (Some ob) s = Inr s' \<and>
           listAt (nodes s') (objList (scopes s' ! c)) (bs @ [length (nodes s)])
             (ys @ [Some ob]) \<and>
           objects s' = objects s \<and>
           (\<forall>p as xs. listAt (nodes s) p as xs \<and> set as \<inter> set bs = {} \<longrightarrow>
              listAt (nodes s') p as xs))) \<and>
     (kind (objects s ! ob) = OBJ_PARAMETER \<longrightarrow>
        (\<forall>w. owner (scopes s ! c) = Some w \<and> w < length (objects s) \<longrightarrow>
           (\<forall>pl as xs. paramList (objects s ! w) = Inr pl \<and> listAt (nodes s) pl as xs \<and>
               set as \<inter> set bs = {} \<longrightarrow>
              (\<exists>s' pl'. declareObject (Some ob) s = Inr s' \<and>
                 paramList (objects s' ! w) = Inr pl' \<and>
                 listAt (nodes s') pl' (as @ [length (nodes s)]) (xs @ [Some ob]) \<and>
                 scopes s' = scopes s \<and>
                 listAt (nodes s') (objList (scopes s' ! c)) bs ys)) \<and>
           (kind (objects s ! w) \<noteq> OBJ_FUNCTION \<and> kind (objects s ! w) \<noteq> OBJ_PROCEDURE \<longrightarrow>
              declareObject (Some ob) s = Inr s)))"
proof (intro conjI impI allI)
  assume "kind (objects s ! ob) \<noteq> OBJ_PARAMETER"
  with assms show "\<exists>s'. declareObject (Some ob) s = Inr s' \<and>
           listAt (nodes s') (objList (scopes s' ! c)) (bs @ [length (nodes s)])
             (ys @ [Some ob]) \<and>
           objects s' = objects s \<and>
           (\<forall>p as xs. listAt (nodes s) p as xs \<and> set as \<inter> set bs = {} \<longrightarrow>
              listAt (nodes s') p as xs)"
    by (intro declareObject_nonparam)
next
  fix w pl as xs
  assume k: "kind (objects s ! ob) = OBJ_PARAMETER"
    and w: "owner (scopes s ! c) = Some w \<and> w < length (objects s)"
    and p: "paramList (objects s ! w) = Inr pl \<and> listAt (nodes s) pl as xs \<and>
      set as \<inter> set bs = {}"
  from p have "(kind (objects s ! w) = OBJ_FUNCTION \<and>
        (\<exists>rt sc. attrs (objects s ! w) = FuncAttrs pl rt sc)) \<or>
      (kind (objects s ! w) = OBJ_PROCEDURE \<and> (\<exists>sc. attrs (objects s ! w) = ProcAttrs pl sc))"
    by (simp add: paramList_Inr)
  then show "\<exists>s' pl'. declareObject (Some ob) s = Inr s' \<and>
                 paramList (objects s' ! w) = Inr pl' \<and>
                 listAt (nodes s') pl' (as @ [length (nodes s)]) (xs @ [Some ob]) \<and>
                 scopes s' = scopes s \<and>
                 listAt (nodes s') (objList (scopes s' ! c)) bs ys"
  proof (elim disjE conjE exE)
    fix rt sc
    assume "kind (objects s ! w) = OBJ_FUNCTION" "attrs (objects s ! w) = FuncAttrs pl rt sc"
    with assms k w p show ?thesis by (intro declareObject_param_function) auto
  next
    fix sc
    assume "kind (objects s ! w) = OBJ_PROCEDURE" "attrs (objects s ! w) = ProcAttrs pl sc"
    with assms k w p show ?thesis by (intro declareObject_param_procedure) auto
  qed
next
  fix w
  assume "kind (objects s ! ob) = OBJ_PARAMETER"
    and "owner (scopes s ! c) = Some w \<and> w < length (objects s)"
    and "kind (objects s ! w) \<noteq> OBJ_FUNCTION \<and> kind (objects s ! w) \<noteq> OBJ_PROCEDURE"
  with assms show "declareObject (Some ob) s = Inr s"
    by (intro declareObject_param_other [where w = w and c = c and st = st]) auto
qed

theorem declareObject_routing_witness:
  "(symbolTable inFunction =
      Some \<lparr>program = Some 7, currentScope = Some 6, globalObjectList = Some 0\<rparr> \<and>
    6 < length (scopes inFunction) \<and> 11 < length (objects inFunction) \<and>
    12 < length (objects inFunction) \<and> 0 < memory inFunction \<and>
    listAt (nodes inFunction) (objList (scopes inFunction ! 6)) [8] [Some 10] \<and>
    kind (objects inFunction ! 11) = OBJ_PARAMETER \<and>
    owner (scopes inFunction ! 6) = Some 8 \<and> 8 < length (objects inFunction) \<and>
    paramList (objects inFunction ! 8) = Inr (Some 7) \<and>
    listAt (nodes inFunction) (Some 7) [7] [Some 9] \<and> set [7 :: nat] \<inter> set [8] = {}) \<and>
   (\<exists>s' pl'. declareObject (Some 11) inFunction = Inr s' \<and>
      paramList (objects s' ! 8) = Inr pl' \<and>
      listAt (nodes s') pl' [7, 9] [Some 9, Some 11] \<and>
      scopes s' = scopes inFunction \<and>
      listAt (nodes s') (objList (scopes s' ! 6)) [8] [Some 10]) \<and>
   kind (objects inFunction ! 12) \<noteq> OBJ_PARAMETER \<and>
   (\<exists>s'. declareObject (Some 12) inFunction = Inr s' \<and>
      listAt (nodes s') (objList (scopes s' ! 6)) [8, 9] [Some 10, Some 12] \<and>
      objects s' = objects inFunction \<and>
      listAt (nodes s') (Some 7) [7] [Some 9]) \<and>
   (symbolTable inRoot =
      Some \<lparr>program = Some 7, currentScope = Some 5, globalObjectList = Some 0\<rparr> \<and>
    5 < length (scopes inRoot) \<and> 8 < length (objects inRoot) \<and> 0 < memory inRoot \<and>
    listAt (nodes inRoot) (objList (scopes inRoot ! 5)) [] [] \<and>
    kind (objects inRoot ! 8) = OBJ_PARAMETER \<and>
    owner (scopes inRoot ! 5) = Some 7 \<and> 7 < length (objects inRoot) \<and>
    kind (objects inRoot ! 7) \<noteq> OBJ_FUNCTION \<and> kind (objects inRoot ! 7) \<noteq> OBJ_PROCEDURE) \<and>
   declareObject (Some 8) inRoot = Inr inRoot"
proof -
  let ?stF = "\<lparr>program = Some 7, currentScope = Some 6, globalObjectList = Some 0\<rparr>"
  let ?stR = "\<lparr>program = Some 7, currentScope = Some 5, globalObjectList = Some 0\<rparr>"
  have f: "symbolTable inFunction = Some ?stF" "currentScope ?stF = Some 6"
    "6 < length (scopes inFunction)" "11 < length (objects inFunction)"
    "12 < length (objects inFunction)" "0 < memory inFunction"
    "listAt (nodes inFunction) (objList (scopes inFunction ! 6)) [8] [Some 10]"
    "kind (objects inFunction ! 11) = OBJ_PARAMETER"
    "owner (scopes inFunction ! 6) = Some 8" "8 < length (objects inFunction)"
    "paramList (objects inFunction ! 8) = Inr (Some 7)"
    "listAt (nodes inFunction) (Some 7) [7] [Some 9]" "set [7 :: nat] \<inter> set [8] = {}"
    "kind (objects inFunction ! 12) \<noteq> OBJ_PARAMETER"
    "length (nodes inFunction) = 9"
    by (simp_all add: inFunction_def builtinScopes_def builtinObjects_def builtinNodes_def
        listAt_def objectsOf_def paramList_def)
  have r: "symbolTable inRoot = Some ?stR" "currentScope ?stR = Some 5"
    "5 < length (scopes inRoot)" "8 < length (objects inRoot)" "0 < memory inRoot"
    "listAt (nodes inRoot) (objList (scopes inRoot ! 5)) [] []"
    "kind (objects inRoot ! 8) = OBJ_PARAMETER"
    "owner (scopes inRoot ! 5) = Some 7" "7 < length (objects inRoot)"
    "kind (objects inRoot ! 7) \<noteq> OBJ_FUNCTION" "kind (objects inRoot ! 7) \<noteq> OBJ_PROCEDURE"
    by (simp_all add: inRoot_def builtinScopes_def builtinObjects_def builtinNodes_def
        listAt_def objectsOf_def)
  note A = declareObject_routing [OF f(1) f(2) f(3) f(4) f(6) f(7)]
  note B = declareObject_routing [OF f(1) f(2) f(3) f(5) f(6) f(7)]
  note C = declareObject_routing [OF r(1) r(2) r(3) r(4) r(5) r(6)]
  from A f have a: "\<exists>s' pl'. declareObject (Some 11) inFunction = Inr s' \<and>
      paramList (objects s' ! 8) = Inr pl' \<and>
      listAt (nodes s') pl' ([7] @ [length (nodes inFunction)]) ([Some 9] @ [Some 11]) \<and>
      scopes s' = scopes inFunction \<and>
      listAt (nodes s') (objList (scopes s' ! 6)) [8] [Some 10]"
    by blast
  from B f have b: "\<exists>s'. declareObject (Some 12) inFunction = Inr s' \<and>
      listAt (nodes s') (objList (scopes s' ! 6)) ([8] @ [length (nodes inFunction)])
        ([Some 10] @ [Some 12]) \<and>
      objects s' = objects inFunction \<and>
      listAt (nodes s') (Some 7) [7] [Some 9]"
    by blast
  from C r have c: "declareObject (Some 8) inRoot = Inr inRoot" by blast
  from a b c f r show ?thesis by simp
qed

text \<open>
  The claim as stated fails when \<open>currentScope\<close> is the root scope of a Program: the
  owner has no parameter list, the \<open>switch\<close> takes its \<open>default\<close> branch, and the
  Parameter is appended nowhere.
\<close>

theorem parameter_in_root_scope_counterexample:
  "symbolTable inRoot =
     Some \<lparr>program = Some 7, currentScope = Some 5, globalObjectList = Some 0\<rparr> \<and>
   owner (scopes inRoot ! 5) = Some 7 \<and> kind (objects inRoot ! 7) = OBJ_PROGRAM \<and>
   paramList (objects inRoot ! 7) = Inl InvalidAccess \<and>
   kind (objects inRoot ! 8) = OBJ_PARAMETER \<and>
   declareObject (Some 8) inRoot = Inr inRoot"
  by code_simp


subsection \<open>Leaving a block without a current scope\<close>

lemma unset_sameLinks: "sameLinks s s' \<Longrightarrow> cursor s = Some None \<longrightarrow> cursor s' = Some None"
  by (simp add: sameLinks_def)

lemma unset_steps:
  "makeIntType s = Inr (t, s') \<Longrightarrow> cursor s = Some None \<longrightarrow> cursor s' = Some None"
  "makeCharType s = Inr (t, s') \<Longrightarrow> cursor s = Some None \<longrightarrow> cursor s' = Some None"
  "set_returnType obj t s = Inr s' \<Longrightarrow> cursor s = Some None \<longrightarrow> cursor s' = Some None"
  "set_paramType obj t s = Inr s' \<Longrightarrow> cursor s = Some None \<longrightarrow> cursor s' = Some None"
  "addObject l obj s = Inr s' \<Longrightarrow> cursor s = Some None \<longrightarrow> cursor s' = Some None"
  "createFunctionObject M nm s = Inr (p, s') \<Longrightarrow> cursor s = Some None \<longrightarrow> cursor s' = Some None"
  "createProcedureObject M nm s = Inr (p, s') \<Longrightarrow> cursor s = Some None \<longrightarrow> cursor s' = Some None"
  "createParameterObject M nm k ow s = Inr (p, s') \<Longrightarrow>
     cursor s = Some None \<longrightarrow> cursor s' = Some None"
proof -
  show "makeIntType s = Inr (t, s') \<Longrightarrow> cursor s = Some None \<longrightarrow> cursor s' = Some None"
    by (blast dest: makeIntType_links unset_sameLinks)
  show "makeCharType s = Inr (t, s') \<Longrightarrow> cursor s = Some None \<longrightarrow> cursor s' = Some None"
    by (blast dest: makeCharType_links unset_sameLinks)
  show "set_returnType obj t s = Inr s' \<Longrightarrow> cursor s = Some None \<longrightarrow> cursor s' = Some None"
    by (blast dest: set_returnType_links unset_sameLinks)
  show "set_paramType obj t s = Inr s' \<Longrightarrow> cursor s = Some None \<longrightarrow> cursor s' = Some None"
    by (blast dest: set_paramType_links unset_sameLinks)
  show "addObject l obj s = Inr s' \<Longrightarrow> cursor s = Some None \<longrightarrow> cursor s' = Some None"
    by (blast dest: addObject_links unset_sameLinks)
  show "createFunctionObject M nm s = Inr (p, s') \<Longrightarrow>
      cursor s = Some None \<longrightarrow> cursor s' = Some None"
    by (auto simp: createFunctionObject_Inr cursor_def)
  show "createProcedureObject M nm s = Inr (p, s') \<Longrightarrow>
      cursor s = Some None \<longrightarrow> cursor s' = Some None"
    by (auto simp: createProcedureObject_Inr cursor_def)
  show "createParameterObject M nm k ow s = Inr (p, s') \<Longrightarrow>
      cursor s = Some None \<longrightarrow> cursor s' = Some None"
    by (auto simp: createParameterObject_Inr cursor_def)
qed

lemma cursor_globals:
  "cursor (s\<lparr>globalIntType := x\<rparr>) = cursor s"
  "cursor (s\<lparr>globalCharType := x\<rparr>) = cursor s"
  by (simp_all add: cursor_def)

lemma cursor_reset:
  "cursor (s\<lparr>memory := m, symbolTable :=
      Some \<lparr>program = None, currentScope = None, globalObjectList = None\<rparr>\<rparr>) = Some None"
  by (simp add: cursor_def)

lemma initSymTab_cursor: "initSymTab M s = Inr s' \<Longrightarrow> cursor s' = Some None"
  apply (clarsimp simp: initSymTab_def andThen_eq_Inr allocateMemory_Inr)
  apply (insert cursor_reset [where s = s and m = "memory s - Suc 0"])
  apply (auto simp: cursor_globals dest!: unset_steps)
  done


text \<open>
  Claim C10. In an initialised symbol table \<open>exitBlock\<close> dereferences \<open>NULL\<close> exactly
  when \<open>currentScope\<close> is unset; this is the state \<open>initSymTab\<close> leaves, whatever state
  it started from; and when \<open>currentScope\<close> is an existing scope \<open>exitBlock\<close> returns.
\<close>

theorem exitBlock_null_dereference:
  "(symbolTable s = Some st \<longrightarrow> (exitBlock s = Inl NullDeref) = (currentScope st = None)) \<and>
   (initSymTab M s = Inr s' \<longrightarrow> exitBlock s' = Inl NullDeref) \<and>
   (symbolTable s = Some st \<and> currentScope st = Some c \<and> c < length (scopes s) \<longrightarrow>
      (\<exists>t. exitBlock s = Inr t))"
proof (intro conjI impI)
  assume "symbolTable s = Some st"
  then show "(exitBlock s = Inl NullDeref) = (currentScope st = None)"
    by (auto simp add: exitBlock_def theSymTab_def andThen_def deref_def split: option.splits)
next
  assume "initSymTab M s = Inr s'"
  then have "cursor s' = Some None" by (rule initSymTab_cursor)
  then show "exitBlock s' = Inl NullDeref"
    by (auto simp add: cursor_def exitBlock_def theSymTab_def andThen_def deref_def)
next
  assume "symbolTable s = Some st \<and> currentScope st = Some c \<and> c < length (scopes s)"
  then show "\<exists>t. exitBlock s = Inr t"
    by (auto simp add: exitBlock_def theSymTab_def andThen_def deref_def)
qed


lemma initSymTab_builtins: "initSymTab 15 (startState 50) = Inr builtins"
  by code_simp

theorem exitBlock_null_dereference_witness:
  "(symbolTable builtins =
      Some \<lparr>program = None, currentScope = None, globalObjectList = Some 0\<rparr> \<and>
    currentScope \<lparr>program = None, currentScope = None, globalObjectList = Some 0\<rparr> = None) \<and>
   initSymTab 15 (startState 50) = Inr builtins \<and>
   exitBlock builtins = Inl NullDeref \<and>
   (symbolTable inFunction =
      Some \<lparr>program = Some 7, currentScope = Some 6, globalObjectList = Some 0\<rparr> \<and>
    6 < length (scopes inFunction)) \<and>
   (\<exists>t. exitBlock inFunction = Inr t) \<and> exitBlock inFunction \<noteq> Inl NullDeref"
  using initSymTab_builtins
    exitBlock_null_dereference [where s = "startState 50" and M = 15 and s' = builtins
      and st = "\<lparr>program = None, currentScope = None, globalObjectList = None\<rparr>" and c = 0]
    exitBlock_null_dereference [where s = inFunction and M = 15 and s' = builtins
      and st = "\<lparr>program = Some 7, currentScope = Some 6, globalObjectList = Some 0\<rparr>"
      and c = 6]
    exitBlock_null_dereference [where s = builtins and M = 15 and s' = builtins
      and st = "\<lparr>program = None, currentScope = None, globalObjectList = Some 0\<rparr>"
      and c = 0]
  by (auto simp add: builtins_def inFunction_def builtinScopes_def)

subsection \<open>The built-in procedure WRITEI\<close>

lemma initSymTab_startState:
  "7 < M \<Longrightarrow> 33 \<le> m \<Longrightarrow> initSymTab M (startState m) = Inr (builtins\<lparr>memory := m - 33\<rparr>)"
  by (simp add: initSymTab_def startState_def andThen_def allocateMemory_def malloc_def
      makeIntType_def makeCharType_def createFunctionObject_def createProcedureObject_def
      createParameterObject_def createBaseObject_def validateName_def createScope_def
      theSymTab_def setAttrs_def set_returnType_def set_paramType_def addObject_def
      deref_def Let_def builtins_def builtinTypes_def builtinObjects_def builtinScopes_def
      builtinNodes_def)

lemma findObject_loop_memory:
  "findObject_loop fuel (s\<lparr>memory := x\<rparr>) l nm = findObject_loop fuel s l nm"
  by (induction fuel arbitrary: l) (simp_all split: option.splits cong: if_cong)

lemma findObject_builtins: "findObject (Some 0) ''WRITEI'' builtins = Inr (Some 2)"
  by code_simp

lemma builtins_WRITEI:
  "name (objects builtins ! 2) = ''WRITEI'' \<and> kind (objects builtins ! 2) = OBJ_PROCEDURE \<and>
   paramList (objects builtins ! 2) = Inr (Some 2) \<and>
   listAt (nodes builtins) (Some 2) [2] [Some 3] \<and>
   name (objects builtins ! 3) = ''i'' \<and> kind (objects builtins ! 3) = OBJ_PARAMETER \<and>
   attrs (objects builtins ! 3) = ParamAttrs PARAM_VALUE (Some 4) (Some 2) \<and>
   types builtins ! 4 = \<lparr>typeClass = TP_INT, arraySize = 0, elementType = None\<rparr>"
  by code_simp


text \<open>
  Claim C8. With \<open>MAX_IDENT_LEN\<close> above 7 (the length of \<open>WRITELN\<close>) and memory for
  its 33 allocations, \<open>initSymTab\<close> returns from the start state, and in the state it
  leaves \<open>findObject\<close> on \<open>globalObjectList\<close> with the name \<open>WRITEI\<close> returns a
  Procedure object of that name whose parameter list has exactly one node; the node
  carries a Parameter object named \<open>i\<close>, passed by value, owned by the procedure, whose
  type is an Int type.
\<close>

theorem init_declares_WRITEI:
  "7 < M \<and> 33 \<le> m \<longrightarrow>
   (\<exists>s st w pl a p t.
      initSymTab M (startState m) = Inr s \<and> symbolTable s = Some st \<and>
      findObject (globalObjectList st) ''WRITEI'' s = Inr (Some w) \<and>
      w < length (objects s) \<and> name (objects s ! w) = ''WRITEI'' \<and>
      kind (objects s ! w) = OBJ_PROCEDURE \<and>
      paramList (objects s ! w) = Inr pl \<and> listAt (nodes s) pl [a] [Some p] \<and>
      p < length (objects s) \<and> name (objects s ! p) = ''i'' \<and>
      kind (objects s ! p) = OBJ_PARAMETER \<and>
      attrs (objects s ! p) = ParamAttrs PARAM_VALUE (Some t) (Some w) \<and>
      t < length (types s) \<and>
      types s ! t = \<lparr>typeClass = TP_INT, arraySize = 0, elementType = None\<rparr>)"
proof (intro impI, elim conjE)
  assume M: "7 < M" and m: "33 \<le> m"
  let ?s = "builtins\<lparr>memory := m - 33\<rparr>"
  let ?st = "\<lparr>program = None, currentScope = None, globalObjectList = Some 0\<rparr>"
  have i: "initSymTab M (startState m) = Inr ?s"
    using M m by (rule initSymTab_startState)
  have st: "symbolTable ?s = Some ?st" by (simp add: builtins_def)
  have f: "findObject (globalObjectList ?st) ''WRITEI'' ?s = Inr (Some 2)"
    using findObject_builtins by (simp add: findObject_def findObject_loop_memory)
  have e: "objects ?s = objects builtins" "nodes ?s = nodes builtins"
    "types ?s = types builtins" by simp_all
  have l: "2 < length (objects ?s)" "3 < length (objects ?s)" "4 < length (types ?s)"
    by (simp_all add: builtins_def builtinObjects_def builtinTypes_def)
  from builtins_WRITEI have b: "name (objects ?s ! 2) = ''WRITEI''"
    "kind (objects ?s ! 2) = OBJ_PROCEDURE" "paramList (objects ?s ! 2) = Inr (Some 2)"
    "listAt (nodes ?s) (Some 2) [2] [Some 3]" "name (objects ?s ! 3) = ''i''"
    "kind (objects ?s ! 3) = OBJ_PARAMETER"
    "attrs (objects ?s ! 3) = ParamAttrs PARAM_VALUE (Some 4) (Some 2)"
    "types ?s ! 4 = \<lparr>typeClass = TP_INT, arraySize = 0, elementType = None\<rparr>"
    unfolding e by simp_all
  from i st f l b show "\<exists>s st w pl a p t.
      initSymTab M (startState m) = Inr s \<and> symbolTable s = Some st \<and>
      findObject (globalObjectList st) ''WRITEI'' s = Inr (Some w) \<and>
      w < length (objects s) \<and> name (objects s ! w) = ''WRITEI'' \<and>
      kind (objects s ! w) = OBJ_PROCEDURE \<and>
      paramList (objects s ! w) = Inr pl \<and> listAt (nodes s) pl [a] [Some p] \<and>
      p < length (objects s) \<and> name (objects s ! p) = ''i'' \<and>
      kind (objects s ! p) = OBJ_PARAMETER \<and>
      attrs (objects s ! p) = ParamAttrs PARAM_VALUE (Some t) (Some w) \<and>
      t < length (types s) \<and>
      types s ! t = \<lparr>typeClass = TP_INT, arraySize = 0, elementType = None\<rparr>"
    by blast
qed

theorem init_declares_WRITEI_witness:
  "((7 :: nat) < 15 \<and> (33 :: nat) \<le> 50) \<and>
   (\<exists>s st w pl a p t.
      initSymTab 15 (startState 50) = Inr s \<and> symbolTable s = Some st \<and>
      findObject (globalObjectList st) ''WRITEI'' s = Inr (Some w) \<and>
      w < length (objects s) \<and> name (objects s ! w) = ''WRITEI'' \<and>
      kind (objects s ! w) = OBJ_PROCEDURE \<and>
      paramList (objects s ! w) = Inr pl \<and> listAt (nodes s) pl [a] [Some p] \<and>
      p < length (objects s) \<and> name (objects s ! p) = ''i'' \<and>
      kind (objects s ! p) = OBJ_PARAMETER \<and>
      attrs (objects s ! p) = ParamAttrs PARAM_VALUE (Some t) (Some w) \<and>
      t < length (types s) \<and>
      types s ! t = \<lparr>typeClass = TP_INT, arraySize = 0, elementType = None\<rparr>)"
  using init_declares_WRITEI [of 15 50] by simp


end
